theory Spec2Isabelle
  imports Main "HOL-Library.Word" "HOL-Library.Signed_Division" "HOL-Library.Monad_Syntax"
begin

section \<open>The Go library functions the program calls\<close>

text \<open>
  The program is d8r, a downscaler for Kubernetes, in its version with the annotation
  \<^verbatim>\<open>d8r/timeZone\<close> and with cron jobs: a polling loop over the deployments and the cron
  jobs of a cluster. Its decisions are made by
  \<^verbatim>\<open>getDeploymentActionNeeded\<close>, \<^verbatim>\<open>isDeploymentActionNeeded\<close>,
  \<^verbatim>\<open>getCronjobActionNeeded\<close> and \<^verbatim>\<open>isCronjobActionNeeded\<close>, which call into Go's
  \<^verbatim>\<open>fmt\<close>, \<^verbatim>\<open>strconv\<close>, \<^verbatim>\<open>strings\<close> and \<^verbatim>\<open>time\<close> packages. This section writes
  down the library behaviour those calls rely on; Go strings are byte strings, here
  \<^typ>\<open>string\<close>.
\<close>

subsection \<open>Bytes and decimal digits\<close>

definition isDigit :: "char \<Rightarrow> bool" where
  "isDigit c = (48 \<le> (of_char c :: nat) \<and> (of_char c :: nat) \<le> 57)"

definition isUpper :: "char \<Rightarrow> bool" where
  "isUpper c = (65 \<le> (of_char c :: nat) \<and> (of_char c :: nat) \<le> 90)"

definition digitVal :: "char \<Rightarrow> nat" where
  "digitVal c = of_char c - 48"

definition digitChar :: "nat \<Rightarrow> char" where
  "digitChar d = ''0123456789'' ! d"

text \<open>The decimal digits of a natural number, most significant first.\<close>

fun decimal :: "nat \<Rightarrow> string" where
  "decimal n = (if n < 10 then [digitChar n] else decimal (n div 10) @ [digitChar (n mod 10)])"

declare decimal.simps [simp del]

subsection \<open>fmt.Sprintf: the four integer verbs the program uses\<close>

text \<open>
  \<^verbatim>\<open>%d\<close> prints a sign only for a negative number. A precision (\<^verbatim>\<open>%.02d\<close>) is the least
  number of digits, the sign not counted; the flag \<^verbatim>\<open>+\<close> prints the sign always. A width
  with the flag \<^verbatim>\<open>0\<close> (\<^verbatim>\<open>%02d\<close>) pads with zeros up to the width, the sign counted.
\<close>

definition atLeast2Digits :: "nat \<Rightarrow> string" where
  "atLeast2Digits n = (if n < 10 then CHR ''0'' # decimal n else decimal n)"

definition fmt_d :: "int \<Rightarrow> string" where
  "fmt_d x = (if x < 0 then CHR ''-'' # decimal (nat (- x)) else decimal (nat x))"

definition fmt_02d :: "int \<Rightarrow> string" where
  "fmt_02d x = (if x < 0 then CHR ''-'' # decimal (nat (- x)) else atLeast2Digits (nat x))"

definition fmt_prec2 :: "int \<Rightarrow> string" where
  "fmt_prec2 x = (if x < 0 then CHR ''-'' # atLeast2Digits (nat (- x)) else atLeast2Digits (nat x))"

definition fmt_plus_prec2 :: "int \<Rightarrow> string" where
  "fmt_plus_prec2 x =
     (if x < 0 then CHR ''-'' # atLeast2Digits (nat (- x)) else CHR ''+'' # atLeast2Digits (nat x))"

subsection \<open>Errors\<close>

text \<open>
  The program only ever logs an error's text and gives up on the resource; the model keeps
  which library call failed and on which input.
\<close>

datatype numErr = ErrSyntax | ErrRange

datatype error =
    UnknownTimeZone string
  | TimeParseError string
  | NumError string numErr
  | ApiError string

subsection \<open>strconv.ParseInt(s, 10, 32)\<close>

text \<open>
  \<^verbatim>\<open>ParseUint\<close> reads the bytes left to right; a byte that is not a decimal digit is a
  syntax error, a value above \<open>2^32 - 1\<close> a range error, whichever comes first.
  \<^verbatim>\<open>ParseInt\<close> takes one leading sign off, and refuses what does not fit 32 signed bits.
\<close>

fun parseUintLoop :: "string \<Rightarrow> nat \<Rightarrow> numErr + nat" where
  "parseUintLoop [] n = Inr n"
| "parseUintLoop (c # cs) n =
     (if \<not> isDigit c then Inl ErrSyntax
      else if n * 10 + digitVal c > 4294967295 then Inl ErrRange
      else parseUintLoop cs (n * 10 + digitVal c))"

definition ParseUint32 :: "string \<Rightarrow> numErr + nat" where
  "ParseUint32 s = (if s = [] then Inl ErrSyntax else parseUintLoop s 0)"

definition ParseInt32 :: "string \<Rightarrow> error + int" where
  "ParseInt32 s0 =
     (if s0 = [] then Inl (NumError s0 ErrSyntax)
      else
        let neg = (hd s0 = CHR ''-'');
            s = (if hd s0 = CHR ''+'' \<or> neg then tl s0 else s0)
        in case ParseUint32 s of
             Inl e \<Rightarrow> Inl (NumError s0 e)
           | Inr un \<Rightarrow>
               if \<not> neg \<and> un \<ge> 2147483648 then Inl (NumError s0 ErrRange)
               else if neg \<and> un > 2147483648 then Inl (NumError s0 ErrRange)
               else Inr (if neg then - int un else int un))"

text \<open>The conversion \<^verbatim>\<open>int32(x)\<close> of an \<^verbatim>\<open>int64\<close> keeps the low 32 bits.\<close>

definition int32 :: "int \<Rightarrow> 32 word" where
  "int32 x = word_of_int x"

subsection \<open>strings.Contains\<close>

fun Contains :: "string \<Rightarrow> string \<Rightarrow> bool" where
  "Contains [] substr = (substr = [])"
| "Contains (c # cs) substr = (take (length substr) (c # cs) = substr \<or> Contains cs substr)"

subsection \<open>The time package\<close>

text \<open>
  A \<^verbatim>\<open>time.Time\<close> is an instant together with the zone it is shown in. The program reads
  of a time only its hour, minute, weekday and zone, and compares only times it has built
  from an hour and a minute, so the model keeps whole seconds (on the Unix scale) and, of
  the location, the zone in force: its abbreviation and its offset east of UTC in seconds.
\<close>

record Time =
  unixSec :: int
  zoneAbbr :: string
  zoneOff :: int

definition Hour :: "Time \<Rightarrow> int" where
  "Hour t = ((unixSec t + zoneOff t) mod 86400) div 3600"

definition Minute :: "Time \<Rightarrow> int" where
  "Minute t = ((unixSec t + zoneOff t) mod 3600) div 60"

text \<open>\<^verbatim>\<open>Weekday\<close>: 0 is Sunday; the first of January 1970 was a Thursday.\<close>

definition Weekday :: "Time \<Rightarrow> nat" where
  "Weekday t = nat (((unixSec t + zoneOff t) div 86400 + 4) mod 7)"

definition WeekdayString :: "nat \<Rightarrow> string" where
  "WeekdayString d =
     [''Sunday'', ''Monday'', ''Tuesday'', ''Wednesday'', ''Thursday'', ''Friday'', ''Saturday''] ! d"

definition Zone :: "Time \<Rightarrow> string \<times> int" where
  "Zone t = (zoneAbbr t, zoneOff t)"

definition Before :: "Time \<Rightarrow> Time \<Rightarrow> bool" where
  "Before t u = (unixSec t < unixSec u)"

definition After :: "Time \<Rightarrow> Time \<Rightarrow> bool" where
  "After t u = (unixSec t > unixSec u)"

text \<open>
  What the program finds around it when it asks for the time: the instant
  (\<^verbatim>\<open>time.Now()\<close>) and, for the name of a time zone, the zone in force there at that instant
  (\<^verbatim>\<open>time.LoadLocation\<close> followed by \<^verbatim>\<open>In\<close>), or nothing when the name is not in the time
  zone database. One evaluation of a resource reads the clock several times; the model
  gives all reads of one call the same instant.
\<close>

record env =
  nowUnix :: int
  zoneinfo :: "string \<Rightarrow> (string \<times> int) option"

type_synonym Location = "string \<times> int"

definition UTC :: Location where
  "UTC = (''UTC'', 0)"

text \<open>\<^verbatim>\<open>LoadLocation\<close> answers the names \<^verbatim>\<open>""\<close> and \<^verbatim>\<open>"UTC"\<close> with UTC itself.\<close>

definition LoadLocation :: "env \<Rightarrow> string \<Rightarrow> error + Location" where
  "LoadLocation e name =
     (if name = [] \<or> name = ''UTC'' then Inr UTC
      else case zoneinfo e name of
             None \<Rightarrow> Inl (UnknownTimeZone name)
           | Some z \<Rightarrow> Inr z)"

definition NowIn :: "env \<Rightarrow> Location \<Rightarrow> Time" where
  "NowIn e loc = \<lparr>unixSec = nowUnix e, zoneAbbr = fst loc, zoneOff = snd loc\<rparr>"

text \<open>The instant 0000-01-01 00:00:00 UTC on the Unix scale (719528 days before 1970).\<close>

definition year0 :: int where
  "year0 = - 62167219200"

subsubsection \<open>time.Parse with the layout "2006-Jan-02 15:04 -0700 MST"\<close>

text \<open>
  \<^verbatim>\<open>Parse\<close> walks the layout and the value together. A space of the layout stands for any
  number of spaces of the value (\<^verbatim>\<open>skip\<close>), any other byte for itself.
\<close>

definition skipSpace :: "string \<Rightarrow> string option" where
  "skipSpace v =
     (if v \<noteq> [] \<and> hd v \<noteq> CHR '' '' then None else Some (dropWhile (\<lambda>c. c = CHR '' '') v))"

definition skipChar :: "char \<Rightarrow> string \<Rightarrow> string option" where
  "skipChar p v = (case v of [] \<Rightarrow> None | c # cs \<Rightarrow> if c = p then Some cs else None)"

text \<open>\<^verbatim>\<open>getnum\<close>: one or two digits, exactly two when \<open>fixed\<close>.\<close>

definition getnum :: "string \<Rightarrow> bool \<Rightarrow> (nat \<times> string) option" where
  "getnum s fixed =
     (case s of
        [] \<Rightarrow> None
      | a # r \<Rightarrow>
          if \<not> isDigit a then None
          else (case r of
                  [] \<Rightarrow> if fixed then None else Some (digitVal a, r)
                | b # r' \<Rightarrow>
                    if \<not> isDigit b then (if fixed then None else Some (digitVal a, r))
                    else Some (digitVal a * 10 + digitVal b, r')))"

text \<open>
  The field \<^verbatim>\<open>-0700\<close>: a sign and four digits, as seconds east of UTC. More than 24
  hours or 60 minutes are out of range (Go 1.20, which the Dockerfile builds with; no zone
  of the time zone database has such an offset).
\<close>

definition numTZ :: "string \<Rightarrow> (int \<times> string) option" where
  "numTZ v =
     (if length v < 5 then None
      else case (getnum (take 2 (drop 1 v)) True, getnum (take 2 (drop 3 v)) True) of
             (Some (hr, _), Some (mm, _)) \<Rightarrow>
               if hr > 24 \<or> mm > 60 then None
               else if hd v = CHR ''+'' then Some ((int hr * 60 + int mm) * 60, drop 5 v)
               else if hd v = CHR ''-'' then Some (- ((int hr * 60 + int mm) * 60), drop 5 v)
               else None
           | _ \<Rightarrow> None)"

text \<open>
  The field \<^verbatim>\<open>MST\<close> (\<^verbatim>\<open>parseTimeZone\<close>): how many bytes of the value are a zone
  abbreviation; \<open>None\<close> when it does not start with one.
\<close>

fun digitsVal :: "string \<Rightarrow> nat \<Rightarrow> nat" where
  "digitsVal [] n = n"
| "digitsVal (c # cs) n = digitsVal cs (n * 10 + digitVal c)"

definition parseSignedOffset :: "string \<Rightarrow> nat" where
  "parseSignedOffset v =
     (case v of
        [] \<Rightarrow> 0
      | sign # r \<Rightarrow>
          if sign \<noteq> CHR ''-'' \<and> sign \<noteq> CHR ''+'' then 0
          else let ds = takeWhile isDigit r
               in if ds = [] then 0 else if digitsVal ds 0 > 23 then 0 else 1 + length ds)"

definition parseGMT :: "string \<Rightarrow> nat" where
  "parseGMT v = (if drop 3 v = [] then 3 else 3 + parseSignedOffset (drop 3 v))"

definition parseTimeZone :: "string \<Rightarrow> nat option" where
  "parseTimeZone v =
     (if length v < 3 then None
      else if take 4 v = ''ChST'' \<or> take 4 v = ''MeST'' then Some 4
      else if take 3 v = ''GMT'' then Some (parseGMT v)
      else if hd v = CHR ''+'' \<or> hd v = CHR ''-'' then
        (if parseSignedOffset v > 0 then Some (parseSignedOffset v) else None)
      else
        (let nUpper = length (takeWhile isUpper (take 6 v))
         in if nUpper = 5 then (if v ! 4 = CHR ''T'' then Some 5 else None)
            else if nUpper = 4 then
              (if v ! 3 = CHR ''T'' \<or> take 4 v = ''WITA'' then Some 4 else None)
            else if nUpper = 3 then Some 3
            else None))"

text \<open>
  The fields after the date, in the layout's order. A value whose zone field starts with
  \<^verbatim>\<open>UTC\<close> is the wall clock read in UTC, whatever the numeric offset said; otherwise it
  is the wall clock read at the numeric offset, in a zone of the parsed name (\<^verbatim>\<open>Parse\<close>
  takes the local zone instead when that has this offset and name, which shows the same
  hour and minute). Text left over at the end is an error.
\<close>

definition parseClockZone :: "string \<Rightarrow> Time option" where
  "parseClockZone v0 =
     do {
       v1 \<leftarrow> skipSpace v0;
       (hour, v2) \<leftarrow> getnum v1 False;
       v3 \<leftarrow> (if 24 \<le> hour then None else skipChar CHR '':'' v2);
       (minute, v4) \<leftarrow> getnum v3 True;
       v5 \<leftarrow> (if 60 \<le> minute then None else skipSpace v4);
       (zoneOffset, v6) \<leftarrow> numTZ v5;
       v7 \<leftarrow> skipSpace v6;
       if take 3 v7 = ''UTC'' then
         (if drop 3 v7 = [] then
            Some \<lparr>unixSec = year0 + int hour * 3600 + int minute * 60,
                  zoneAbbr = fst UTC, zoneOff = snd UTC\<rparr>
          else None)
       else
         do {
           n \<leftarrow> parseTimeZone v7;
           if drop n v7 = [] then
             Some \<lparr>unixSec = year0 + int hour * 3600 + int minute * 60 - zoneOffset,
                   zoneAbbr = take n v7, zoneOff = zoneOffset\<rparr>
           else None
         }
     }"

text \<open>
  Both calls of \<^verbatim>\<open>time.Parse\<close> in the program print the date \<^verbatim>\<open>0000-Jan-01\<close> in front
  of the value themselves; the model reads that date and nothing else in its place.
\<close>

definition timeParse :: "string \<Rightarrow> error + Time" where
  "timeParse s =
     (if take 11 s = ''0000-Jan-01'' then
        (case parseClockZone (drop 11 s) of
           None \<Rightarrow> Inl (TimeParseError s)
         | Some t \<Rightarrow> Inr t)
      else Inl (TimeParseError s))"

section \<open>The program\<close>

subsection \<open>Actions, annotation keys, output\<close>

text \<open>
  \<^verbatim>\<open>type Action int\<close> with two \<^verbatim>\<open>iota\<close> blocks: the names of the cron job actions are
  the numbers of the first two deployment actions.
\<close>

type_synonym Action = int

definition Upscale :: Action where "Upscale = 0"
definition Downscale :: Action where "Downscale = 1"
definition NoAction :: Action where "NoAction = 2"
definition Suspend :: Action where "Suspend = 0"
definition Resume :: Action where "Resume = 1"

text \<open>The two name tables; a Go map answers a missing key with the empty string.\<close>

definition actionName :: "Action \<Rightarrow> string" where
  "actionName a =
     (if a = Upscale then ''upscale'' else if a = Downscale then ''downscale''
      else if a = NoAction then ''no action'' else [])"

definition jobActionName :: "Action \<Rightarrow> string" where
  "jobActionName a = (if a = Suspend then ''suspend'' else if a = Resume then ''resume'' else [])"

abbreviation annotationStartTime :: string where "annotationStartTime \<equiv> ''d8r/startTime''"
abbreviation annotationStopTime :: string where "annotationStopTime \<equiv> ''d8r/stopTime''"
abbreviation annotationTimeZone :: string where "annotationTimeZone \<equiv> ''d8r/timeZone''"
abbreviation annotationDownTimeReplicas :: string where
  "annotationDownTimeReplicas \<equiv> ''d8r/downTimeReplicas''"
abbreviation annotationOriginalReplicas :: string where
  "annotationOriginalReplicas \<equiv> ''d8r/originalReplicas''"
abbreviation annotationDays :: string where "annotationDays \<equiv> ''d8r/days''"

text \<open>
  The annotations of a resource are a Go \<^verbatim>\<open>map[string]string\<close>. The one-result read
  \<^verbatim>\<open>annotations[key]\<close> gives the empty string for an absent key (\<open>getOrEmpty\<close>); the
  two-result read is the map itself.
\<close>

type_synonym annotations = "string \<rightharpoonup> string"

definition getOrEmpty :: "annotations \<Rightarrow> string \<Rightarrow> string" where
  "getOrEmpty m k = (case m k of None \<Rightarrow> [] | Some v \<Rightarrow> v)"

text \<open>
  What the program writes, in order: a line of the logger (\<^verbatim>\<open>Log\<close>; its time stamp is
  left out), which is either an error's text or the line announcing an action, and the
  line \<^verbatim>\<open>fmt.Printf\<close> prints with the three times compared and the time zone.
\<close>

datatype event =
    LogError error
  | LogDeployment string string "32 word" string
  | LogCronjob string string string
  | Printed Time Time Time string

subsection \<open>Times without a date\<close>

text \<open>
  \<^verbatim>\<open>getRidOfDate\<close> prints hour and minute behind the fixed date and in UTC, and parses
  the line.
\<close>

definition getRidOfDate :: "Time \<Rightarrow> error + Time" where
  "getRidOfDate t =
     (let formattedTime =
            ''0000-Jan-01 '' @ fmt_02d (Hour t) @ '':'' @ fmt_02d (Minute t) @ '' +0000 UTC''
      in timeParse formattedTime)"

definition ConvertTimeNowToLocal :: "env \<Rightarrow> string \<Rightarrow> error + (Time \<times> string)" where
  "ConvertTimeNowToLocal e tz =
     (case LoadLocation e tz of
        Inl err \<Rightarrow> Inl err
      | Inr loc \<Rightarrow>
          let currentTime = NowIn e loc;
              weekday = take 3 (WeekdayString (Weekday currentTime))
          in (case getRidOfDate currentTime of
                Inl err \<Rightarrow> Inl err
              | Inr result \<Rightarrow> Inr (result, weekday)))"

text \<open>
  \<^verbatim>\<open>ConvertAnnotationTime\<close> prints the annotation's text between the fixed date and the
  zone in force now, the offset as \<^verbatim>\<open>zoneOffset/3600\<close> followed by
  \<^verbatim>\<open>zoneOffset%3600\<close> (Go's division truncates towards zero), and parses the line.
\<close>

definition ConvertAnnotationTime :: "env \<Rightarrow> string \<Rightarrow> string \<Rightarrow> error + Time" where
  "ConvertAnnotationTime e t timeZone =
     (case LoadLocation e timeZone of
        Inl err \<Rightarrow> Inl err
      | Inr loc \<Rightarrow>
          let currentTime = NowIn e loc;
              (zoneAbbreviation, zoneOffset) = Zone currentTime;
              zoneOffsetStr = fmt_plus_prec2 (zoneOffset sdiv 3600) @ fmt_prec2 (zoneOffset smod 3600);
              formattedSrcTime =
                ''0000-Jan-01 '' @ t @ '' '' @ zoneOffsetStr @ '' '' @ zoneAbbreviation
          in timeParse formattedSrcTime)"

subsection \<open>The deciders\<close>

text \<open>
  \<^verbatim>\<open>getDeploymentActionNeeded\<close> and \<^verbatim>\<open>getCronjobActionNeeded\<close> begin with the same
  statements (lines 107 to 145 and 265 to 303 of the source): the current time of day in
  the annotated time zone, then the start and the stop time of day. \<open>normalizedTimes\<close>
  is that common beginning; \<open>Inl\<close> holds what was logged when it returned
  \<^verbatim>\<open>NoAction\<close> early.
\<close>

definition normalizedTimes :: "env \<Rightarrow> annotations \<Rightarrow> event list + (Time \<times> Time \<times> Time)" where
  "normalizedTimes e annotations =
     (let timeZone = getOrEmpty annotations annotationTimeZone
      in case ConvertTimeNowToLocal e timeZone of
           Inl err \<Rightarrow> Inl [LogError err]
         | Inr (timeNow, _) \<Rightarrow>
             (case (annotations annotationStartTime, annotations annotationStopTime) of
                (Some startTime, Some stopTime) \<Rightarrow>
                  (case ConvertAnnotationTime e startTime timeZone of
                     Inl err \<Rightarrow> Inl [LogError err]
                   | Inr startTimeConv \<Rightarrow>
                  (case getRidOfDate startTimeConv of
                     Inl err \<Rightarrow> Inl [LogError err]
                   | Inr timeStartTime \<Rightarrow>
                  (case ConvertAnnotationTime e stopTime timeZone of
                     Inl err \<Rightarrow> Inl [LogError err]
                   | Inr stopTimeConv \<Rightarrow>
                  (case getRidOfDate stopTimeConv of
                     Inl err \<Rightarrow> Inl [LogError err]
                   | Inr timeStopTime \<Rightarrow> Inr (timeNow, timeStartTime, timeStopTime)))))
              | _ \<Rightarrow> Inl []))"

text \<open>Lines 149 to 171: the comparison with the window and the guards on the replicas.\<close>

definition deploymentWindowAction ::
  "annotations \<Rightarrow> 32 word \<Rightarrow> Time \<Rightarrow> Time \<Rightarrow> Time \<Rightarrow> Action \<times> event list" where
  "deploymentWindowAction annotations replicas timeNow timeStartTime timeStopTime =
     (let uptime =
            (if Before timeStartTime timeNow \<and> \<not> Before timeStopTime timeNow then
               (case ParseInt32 (getOrEmpty annotations annotationOriginalReplicas) of
                  Inl err \<Rightarrow> (NoAction, [LogError err])
                | Inr originalReplicas \<Rightarrow>
                    if replicas \<noteq> int32 originalReplicas then (Upscale, []) else (NoAction, []))
             else (NoAction, []))
      in if Before timeStopTime timeNow \<or> After timeStartTime timeNow then
           (case ParseInt32 (getOrEmpty annotations annotationDownTimeReplicas) of
              Inl err \<Rightarrow> (NoAction, [LogError err])
            | Inr downTimeReplicas \<Rightarrow>
                if replicas \<noteq> int32 downTimeReplicas then (Downscale, []) else uptime)
         else uptime)"

definition getDeploymentActionNeeded ::
  "env \<Rightarrow> annotations \<Rightarrow> 32 word \<Rightarrow> Action \<times> event list" where
  "getDeploymentActionNeeded e annotations replicas =
     (case normalizedTimes e annotations of
        Inl out \<Rightarrow> (NoAction, out)
      | Inr (timeNow, timeStartTime, timeStopTime) \<Rightarrow>
          let (action, out) =
                deploymentWindowAction annotations replicas timeNow timeStartTime timeStopTime
          in (action,
              Printed timeNow timeStartTime timeStopTime (getOrEmpty annotations annotationTimeZone)
                # out))"

definition isDeploymentActionNeeded ::
  "env \<Rightarrow> annotations \<Rightarrow> 32 word \<Rightarrow> bool \<times> event list" where
  "isDeploymentActionNeeded e annotations replicas =
     (case annotations annotationDays of
        None \<Rightarrow> (False, [])
      | Some days \<Rightarrow>
     (case annotations annotationTimeZone of
        None \<Rightarrow> (False, [])
      | Some timeZone \<Rightarrow>
     (case ConvertTimeNowToLocal e timeZone of
        Inl err \<Rightarrow> (False, [LogError err])
      | Inr (_, today) \<Rightarrow>
          if \<not> Contains days today then (False, [])
          else (case annotations annotationDownTimeReplicas of
                  None \<Rightarrow> (False, [])
                | Some _ \<Rightarrow>
                    let (action, out) = getDeploymentActionNeeded e annotations replicas
                    in (action \<noteq> NoAction, out)))))"

text \<open>Lines 308 to 321: the comparison with the window and the guards on the flag.\<close>

definition cronjobWindowAction :: "bool \<Rightarrow> Time \<Rightarrow> Time \<Rightarrow> Time \<Rightarrow> Action" where
  "cronjobWindowAction suspend timeNow timeStartTime timeStopTime =
     (let uptime =
            (if Before timeStartTime timeNow \<and> \<not> Before timeStopTime timeNow then
               (if suspend then Resume else NoAction)
             else NoAction)
      in if Before timeStopTime timeNow \<or> After timeStartTime timeNow then
           (if \<not> suspend then Suspend else uptime)
         else uptime)"

definition getCronjobActionNeeded :: "env \<Rightarrow> annotations \<Rightarrow> bool \<Rightarrow> Action \<times> event list" where
  "getCronjobActionNeeded e annotations suspend =
     (case normalizedTimes e annotations of
        Inl out \<Rightarrow> (NoAction, out)
      | Inr (timeNow, timeStartTime, timeStopTime) \<Rightarrow>
          (cronjobWindowAction suspend timeNow timeStartTime timeStopTime,
           [Printed timeNow timeStartTime timeStopTime (getOrEmpty annotations annotationTimeZone)]))"

definition isCronjobActionNeeded :: "env \<Rightarrow> annotations \<Rightarrow> bool \<Rightarrow> bool \<times> event list" where
  "isCronjobActionNeeded e annotations suspend =
     (case annotations annotationDays of
        None \<Rightarrow> (False, [])
      | Some days \<Rightarrow>
     (case annotations annotationTimeZone of
        None \<Rightarrow> (False, [])
      | Some timeZone \<Rightarrow>
     (case ConvertTimeNowToLocal e timeZone of
        Inl err \<Rightarrow> (False, [LogError err])
      | Inr (_, today) \<Rightarrow>
          if \<not> Contains days today then (False, [])
          else let (action, out) = getCronjobActionNeeded e annotations suspend
               in (action \<noteq> NoAction, out))))"

subsection \<open>The drivers\<close>

text \<open>
  Of a listed object the program reads the namespace, the name and the annotations, and
  \<^verbatim>\<open>Spec.Replicas\<close> of a deployment or \<^verbatim>\<open>Spec.Suspend\<close> of a cron job (both pointers; the
  API server fills them in, so a listed object has them).
\<close>

record ObjectMeta =
  Namespace :: string
  Name :: string
  Annotations :: annotations

record Deployment = ObjectMeta +
  SpecReplicas :: "32 word"

record CronJob = ObjectMeta +
  SpecSuspend :: bool

text \<open>
  One round of the loop of \<^verbatim>\<open>checkDeployments\<close> (lines 219 to 259). The clock is read
  anew by the check of line 220 (\<open>eCheck\<close>) and by the decision of line 222 (\<open>eAct\<close>).
  \<open>update\<close> is the answer of the API server to \<^verbatim>\<open>Update\<close>: an error or none. The result
  is the object handed to \<^verbatim>\<open>Update\<close>, if the round got that far, and the output.
\<close>

definition checkDeployment ::
  "env \<Rightarrow> env \<Rightarrow> (Deployment \<Rightarrow> error option) \<Rightarrow> Deployment \<Rightarrow>
     Deployment option \<times> event list" where
  "checkDeployment eCheck eAct update deployment =
     (let annotations = Annotations deployment;
          (actionNeeded, out1) = isDeploymentActionNeeded eCheck annotations (SpecReplicas deployment)
      in if actionNeeded then
           (let (actionToDo, out2) =
                  getDeploymentActionNeeded eAct annotations (SpecReplicas deployment);
                out3 = [LogDeployment (Namespace deployment) (Name deployment)
                          (SpecReplicas deployment) (actionName actionToDo)];
                updated = (\<lambda>d. (Some d, out1 @ out2 @ out3 @
                            (case update d of None \<Rightarrow> [] | Some err \<Rightarrow> [LogError err])))
            in if actionToDo = Downscale then
                 (case ParseInt32 (getOrEmpty (Annotations deployment) annotationDownTimeReplicas) of
                    Inl err \<Rightarrow> (None, out1 @ out2 @ out3 @ [LogError err])
                  | Inr downTimeReplicas \<Rightarrow>
                      updated (deployment
                        \<lparr>Annotations := (Annotations deployment)
                           (annotationOriginalReplicas \<mapsto> fmt_d (sint (SpecReplicas deployment))),
                         SpecReplicas := int32 downTimeReplicas\<rparr>))
               else if actionToDo = Upscale then
                 (case ParseInt32 (getOrEmpty (Annotations deployment) annotationOriginalReplicas) of
                    Inl err \<Rightarrow> (None, out1 @ out2 @ out3 @ [LogError err])
                  | Inr originalReplicas \<Rightarrow>
                      updated (deployment\<lparr>SpecReplicas := int32 originalReplicas\<rparr>))
               else (None, out1 @ out2 @ out3))
         else (None, out1))"

text \<open>One round of the loop of \<^verbatim>\<open>checkCronjobs\<close> (lines 362 to 390).\<close>

definition checkCronjob ::
  "env \<Rightarrow> env \<Rightarrow> (CronJob \<Rightarrow> error option) \<Rightarrow> CronJob \<Rightarrow> CronJob option \<times> event list" where
  "checkCronjob eCheck eAct update cronjob =
     (let annotations = Annotations cronjob;
          suspend = SpecSuspend cronjob;
          (actionNeeded, out1) = isCronjobActionNeeded eCheck annotations suspend
      in if actionNeeded then
           (let (actionToDo, out2) = getCronjobActionNeeded eAct annotations suspend;
                out3 = [LogCronjob (Namespace cronjob) (Name cronjob) (jobActionName actionToDo)];
                updated = (\<lambda>c. (Some c, out1 @ out2 @ out3 @
                            (case update c of None \<Rightarrow> [] | Some err \<Rightarrow> [LogError err])))
            in if actionToDo = Suspend then updated (cronjob\<lparr>SpecSuspend := True\<rparr>)
               else if actionToDo = Resume then updated (cronjob\<lparr>SpecSuspend := False\<rparr>)
               else (None, out1 @ out2 @ out3))
         else (None, out1))"

text \<open>
  The loops over the listed objects: \<open>clock k\<close> are the two readings of the clock for
  the object at position \<open>k\<close>. The result is the objects handed to \<^verbatim>\<open>Update\<close>, in order,
  and the output. A failed listing ends the process (\<^verbatim>\<open>os.Exit(3)\<close>).
\<close>

fun deploymentRounds ::
  "(nat \<Rightarrow> env \<times> env) \<Rightarrow> (Deployment \<Rightarrow> error option) \<Rightarrow> nat \<Rightarrow> Deployment list \<Rightarrow>
     Deployment list \<times> event list" where
  "deploymentRounds clock update k [] = ([], [])"
| "deploymentRounds clock update k (deployment # items) =
     (let (written, out) = checkDeployment (fst (clock k)) (snd (clock k)) update deployment;
          (writes, outs) = deploymentRounds clock update (Suc k) items
      in ((case written of None \<Rightarrow> writes | Some d \<Rightarrow> d # writes), out @ outs))"

fun cronjobRounds ::
  "(nat \<Rightarrow> env \<times> env) \<Rightarrow> (CronJob \<Rightarrow> error option) \<Rightarrow> nat \<Rightarrow> CronJob list \<Rightarrow>
     CronJob list \<times> event list" where
  "cronjobRounds clock update k [] = ([], [])"
| "cronjobRounds clock update k (cronjob # items) =
     (let (written, out) = checkCronjob (fst (clock k)) (snd (clock k)) update cronjob;
          (writes, outs) = cronjobRounds clock update (Suc k) items
      in ((case written of None \<Rightarrow> writes | Some c \<Rightarrow> c # writes), out @ outs))"

datatype 'a outcome = Exit nat | Returned 'a

definition checkDeployments ::
  "(nat \<Rightarrow> env \<times> env) \<Rightarrow> (Deployment \<Rightarrow> error option) \<Rightarrow> error + Deployment list \<Rightarrow>
     Deployment list outcome \<times> event list" where
  "checkDeployments clock update listed =
     (case listed of
        Inl err \<Rightarrow> (Exit 3, [LogError err])
      | Inr items \<Rightarrow>
          let (writes, out) = deploymentRounds clock update 0 items in (Returned writes, out))"

definition checkCronjobs ::
  "(nat \<Rightarrow> env \<times> env) \<Rightarrow> (CronJob \<Rightarrow> error option) \<Rightarrow> error + CronJob list \<Rightarrow>
     CronJob list outcome \<times> event list" where
  "checkCronjobs clock update listed =
     (case listed of
        Inl err \<Rightarrow> (Exit 3, [LogError err])
      | Inr items \<Rightarrow>
          let (writes, out) = cronjobRounds clock update 0 items in (Returned writes, out))"

subsection \<open>A deployment and a cron job to run the program on\<close>

text \<open>
  The annotations of the README's example, Prague on winter time, and the clock at a
  minute of Wednesday the 4th of November 2026 (\<open>pragueAt h m\<close>, Prague time), of the
  Saturday after it or of the Monday before it.
\<close>

definition nginxAnnotations :: annotations where
  "nginxAnnotations =
     [''d8r/days'' \<mapsto> ''Mon,Tue,Wed,Thu,Fri'', ''d8r/startTime'' \<mapsto> ''08:00'',
      ''d8r/stopTime'' \<mapsto> ''16:00'', ''d8r/timeZone'' \<mapsto> ''Europe/Prague'',
      ''d8r/downTimeReplicas'' \<mapsto> ''1'']"

definition winterZones :: "string \<Rightarrow> (string \<times> int) option" where
  "winterZones = [''Europe/Prague'' \<mapsto> (''CET'', 3600)]"

definition pragueAt :: "int \<Rightarrow> int \<Rightarrow> env" where
  "pragueAt h m = \<lparr>nowUnix = 1793750400 + (h - 1) * 3600 + m * 60, zoneinfo = winterZones\<rparr>"

definition pragueSaturdayAt :: "int \<Rightarrow> int \<Rightarrow> env" where
  "pragueSaturdayAt h m =
     \<lparr>nowUnix = 1793750400 + 3 * 86400 + (h - 1) * 3600 + m * 60, zoneinfo = winterZones\<rparr>"

definition pragueMondayAt :: "int \<Rightarrow> int \<Rightarrow> env" where
  "pragueMondayAt h m =
     \<lparr>nowUnix = 1793750400 - 2 * 86400 + (h - 1) * 3600 + m * 60, zoneinfo = winterZones\<rparr>"

definition nginx :: Deployment where
  "nginx = \<lparr>Namespace = ''default'', Name = ''nginx'', Annotations = nginxAnnotations,
            SpecReplicas = 2\<rparr>"

definition noUpdateError :: "'a \<Rightarrow> error option" where
  "noUpdateError d = None"

text \<open>
  The same schedule for a window over midnight, from 22:00 to 06:00; a deployment whose
  time zone no database knows and whose start time is missing; and a cron job.
\<close>

definition nightAnnotations :: annotations where
  "nightAnnotations =
     [''d8r/days'' \<mapsto> ''Mon,Tue,Wed,Thu,Fri'', ''d8r/startTime'' \<mapsto> ''22:00'',
      ''d8r/stopTime'' \<mapsto> ''06:00'', ''d8r/timeZone'' \<mapsto> ''Europe/Prague'',
      ''d8r/downTimeReplicas'' \<mapsto> ''1'']"

definition marsAnnotations :: annotations where
  "marsAnnotations =
     [''d8r/days'' \<mapsto> ''Mon,Tue,Wed,Thu,Fri'', ''d8r/stopTime'' \<mapsto> ''16:00'',
      ''d8r/timeZone'' \<mapsto> ''Mars/Olympus'', ''d8r/downTimeReplicas'' \<mapsto> ''1'']"

definition backup :: CronJob where
  "backup = \<lparr>Namespace = ''default'', Name = ''backup'', Annotations = nginxAnnotations,
             SpecSuspend = False\<rparr>"

text \<open>The schedule of the README with the day written out in full.\<close>

definition mondayAnnotations :: annotations where
  "mondayAnnotations =
     [''d8r/days'' \<mapsto> ''Monday'', ''d8r/startTime'' \<mapsto> ''08:00'',
      ''d8r/stopTime'' \<mapsto> ''16:00'', ''d8r/timeZone'' \<mapsto> ''Europe/Prague'',
      ''d8r/downTimeReplicas'' \<mapsto> ''1'']"

subsection \<open>Names for stating the results\<close>

text \<open>
  \<open>atClock h m\<close> is the time \<^verbatim>\<open>0000-01-01 h:m:00 +0000 UTC\<close>, the only kind of time
  the deciders compare.
\<close>

definition atClock :: "int \<Rightarrow> int \<Rightarrow> Time" where
  "atClock h m = \<lparr>unixSec = year0 + h * 3600 + m * 60, zoneAbbr = ''UTC'', zoneOff = 0\<rparr>"

text \<open>
  \<open>clockOfText\<close> is the hour and the minute \<^verbatim>\<open>time.Parse\<close> reads at the head of the
  text of \<^verbatim>\<open>d8r/startTime\<close> or \<^verbatim>\<open>d8r/stopTime\<close>: one or two digits, a colon, two
  digits, after any spaces, and within the range of a clock.
\<close>

definition clockFields :: "string \<Rightarrow> (nat \<times> nat) option" where
  "clockFields u =
     do {
       (hour, v2) \<leftarrow> getnum u False;
       v3 \<leftarrow> skipChar CHR '':'' v2;
       (minute, v4) \<leftarrow> getnum v3 True;
       if hour < 24 \<and> minute < 60 then Some (hour, minute) else None
     }"

definition clockOfText :: "string \<Rightarrow> (nat \<times> nat) option" where
  "clockOfText t = clockFields (dropWhile (\<lambda>c. c = CHR '' '') t)"

text \<open>
  \<open>timeZoneErrors\<close> is what the checks \<^verbatim>\<open>isDeploymentActionNeeded\<close> and
  \<^verbatim>\<open>isCronjobActionNeeded\<close> log before they look at the day: the error of loading the
  time zone, when the keys \<^verbatim>\<open>d8r/days\<close> and \<^verbatim>\<open>d8r/timeZone\<close> are both there.
\<close>

definition timeZoneErrors :: "env \<Rightarrow> annotations \<Rightarrow> event list" where
  "timeZoneErrors e annotations =
     (case annotations annotationDays of
        None \<Rightarrow> []
      | Some days \<Rightarrow>
          (case annotations annotationTimeZone of
             None \<Rightarrow> []
           | Some timeZone \<Rightarrow>
               (case LoadLocation e timeZone of
                  Inl err \<Rightarrow> [LogError err]
                | Inr loc \<Rightarrow> [])))"

section \<open>Facts about the library functions\<close>

subsection \<open>Digits and numbers\<close>

lemmas parse_defs = skipSpace_def skipChar_def getnum_def numTZ_def
  parseSignedOffset_def parseGMT_def parseTimeZone_def parseClockZone_def timeParse_def UTC_def

lemma digitChar_digit:
  assumes "d < 10"
  shows "isDigit (digitChar d)" and "digitVal (digitChar d) = d"
proof -
  from assms have "d = 0 \<or> d = 1 \<or> d = 2 \<or> d = 3 \<or> d = 4 \<or> d = 5 \<or> d = 6
    \<or> d = 7 \<or> d = 8 \<or> d = 9"
    by arith
  then have "isDigit (digitChar d) \<and> digitVal (digitChar d) = d"
    by (elim disjE) (simp_all add: digitChar_def isDigit_def digitVal_def)
  then show "isDigit (digitChar d)" and "digitVal (digitChar d) = d"
    by simp_all
qed

lemma isDigit_not_space: "isDigit c \<Longrightarrow> c \<noteq> CHR '' ''"
  by (auto simp: isDigit_def)

lemma space_not_digit: "\<not> isDigit CHR '' ''"
  by (simp add: isDigit_def)

lemma isDigit_not_sign: "isDigit c \<Longrightarrow> c \<noteq> CHR ''-'' \<and> c \<noteq> CHR ''+''"
  by (auto simp: isDigit_def)

lemma atLeast2Digits_two:
  assumes "n < 100"
  shows "atLeast2Digits n = [digitChar (n div 10), digitChar (n mod 10)]"
proof (cases "n < 10")
  case True
  then show ?thesis
    by (simp add: atLeast2Digits_def decimal.simps [of n] digitChar_def)
next
  case False
  with assms have "n div 10 < 10" by simp
  with False show ?thesis
    by (simp add: atLeast2Digits_def decimal.simps [of n] decimal.simps [of "n div 10"])
qed

lemma parseUintLoop_snoc:
  "parseUintLoop (xs @ [c]) n =
     (case parseUintLoop xs n of
        Inl err \<Rightarrow> Inl err
      | Inr m \<Rightarrow>
          if \<not> isDigit c then Inl ErrSyntax
          else if m * 10 + digitVal c > 4294967295 then Inl ErrRange
          else Inr (m * 10 + digitVal c))"
  by (induction xs arbitrary: n) simp_all

lemma decimal_digits: "c \<in> set (decimal n) \<Longrightarrow> isDigit c"
proof (induction n rule: decimal.induct)
  case (1 n)
  show ?case
  proof (cases "n < 10")
    case True
    with "1.prems" show ?thesis
      by (simp add: decimal.simps [of n] digitChar_digit)
  next
    case False
    with "1.prems" "1.IH" show ?thesis
      by (auto simp: decimal.simps [of n] digitChar_digit)
  qed
qed

lemma decimal_not_Nil: "decimal n \<noteq> []"
  by (simp add: decimal.simps [of n])

lemma parseUintLoop_decimal:
  "n \<le> 4294967295 \<Longrightarrow> parseUintLoop (decimal n) 0 = Inr n"
proof (induction n rule: decimal.induct)
  case (1 n)
  show ?case
  proof (cases "n < 10")
    case True
    with "1.prems" show ?thesis
      by (simp add: decimal.simps [of n] digitChar_digit)
  next
    case False
    from "1.prems" have "n div 10 \<le> 4294967295"
      by simp
    with False "1.IH" have "parseUintLoop (decimal (n div 10)) 0 = Inr (n div 10)"
      by simp
    with False "1.prems" show ?thesis
      by (simp add: decimal.simps [of n] parseUintLoop_snoc digitChar_digit)
  qed
qed

lemma hd_decimal: "isDigit (hd (decimal n))"
  using decimal_not_Nil [of n] decimal_digits [of "hd (decimal n)" n] by simp

text \<open>What \<^verbatim>\<open>%d\<close> prints of a 32-bit number, \<^verbatim>\<open>ParseInt\<close> reads back.\<close>

lemma ParseInt32_fmt_d:
  assumes "- 2147483648 \<le> x" and "x < 2147483648"
  shows "ParseInt32 (fmt_d x) = Inr x"
proof (cases "x < 0")
  case True
  with assms have "nat (- x) \<le> 4294967295" and "\<not> nat (- x) > 2147483648"
    by simp_all
  with True show ?thesis
    by (simp add: ParseInt32_def fmt_d_def ParseUint32_def decimal_not_Nil parseUintLoop_decimal)
next
  case False
  with assms have "nat x \<le> 4294967295" and "\<not> nat x \<ge> 2147483648"
    by simp_all
  with False isDigit_not_sign [OF hd_decimal [of "nat x"]] show ?thesis
    by (simp add: ParseInt32_def fmt_d_def ParseUint32_def decimal_not_Nil parseUintLoop_decimal)
qed

lemma ParseInt32_fmt_d_sint: "ParseInt32 (fmt_d (sint (w :: 32 word))) = Inr (sint w)"
proof -
  have "- 2147483648 \<le> sint w" and "sint w < 2147483648"
    using sint_ge [of w] sint_lt [of w] by simp_all
  then show ?thesis
    by (rule ParseInt32_fmt_d)
qed

lemma int32_sint: "int32 (sint (w :: 32 word)) = w"
  by (simp add: int32_def)

lemma ParseInt32_absent:
  "annotations k = None \<Longrightarrow> ParseInt32 (getOrEmpty annotations k) = Inl (NumError [] ErrSyntax)"
  by (simp add: getOrEmpty_def ParseInt32_def)

subsection \<open>Substrings\<close>

text \<open>\<^verbatim>\<open>strings.Contains\<close> is containment as a substring.\<close>

lemma Contains_iff: "Contains s substr \<longleftrightarrow> (\<exists>before after. s = before @ substr @ after)"
proof (induction s)
  case Nil
  show ?case by auto
next
  case (Cons c cs)
  show ?case
  proof
    assume "Contains (c # cs) substr"
    then consider "take (length substr) (c # cs) = substr" | "Contains cs substr"
      by auto
    then show "\<exists>before after. c # cs = before @ substr @ after"
    proof cases
      case 1
      then have "c # cs = [] @ substr @ drop (length substr) (c # cs)"
        by (metis append_Nil append_take_drop_id)
      then show ?thesis by blast
    next
      case 2
      with Cons.IH obtain before after where "cs = before @ substr @ after"
        by auto
      then have "c # cs = (c # before) @ substr @ after"
        by simp
      then show ?thesis by blast
    qed
  next
    assume "\<exists>before after. c # cs = before @ substr @ after"
    then obtain before after where split: "c # cs = before @ substr @ after"
      by auto
    show "Contains (c # cs) substr"
    proof (cases before)
      case Nil
      with split have "take (length substr) (c # cs) = substr"
        by simp
      then show ?thesis by simp
    next
      case (Cons b bs)
      with split have "cs = bs @ substr @ after"
        by simp
      with Cons.IH show ?thesis by auto
    qed
  qed
qed

subsection \<open>Times and their parsing\<close>

lemma Hour_range: "0 \<le> Hour t \<and> Hour t < 24"
proof -
  define y where "y = (unixSec t + zoneOff t) mod 86400"
  have "0 \<le> y" and "y < 86400"
    by (simp_all add: y_def)
  then have "y \<le> 86399"
    by simp
  then have "y div 3600 \<le> 86399 div 3600"
    by (rule zdiv_mono1) simp
  with \<open>0 \<le> y\<close> show ?thesis
    by (simp add: Hour_def y_def [symmetric] pos_imp_zdiv_nonneg_iff)
qed

lemma Minute_range: "0 \<le> Minute t \<and> Minute t < 60"
proof -
  define y where "y = (unixSec t + zoneOff t) mod 3600"
  have "0 \<le> y" and "y < 3600"
    by (simp_all add: y_def)
  then have "y \<le> 3599"
    by simp
  then have "y div 60 \<le> 3599 div 60"
    by (rule zdiv_mono1) simp
  with \<open>0 \<le> y\<close> show ?thesis
    by (simp add: Minute_def y_def [symmetric] pos_imp_zdiv_nonneg_iff)
qed

lemma weekday_abbreviation:
  "take 3 (WeekdayString (Weekday t)) \<in> {''Sun'', ''Mon'', ''Tue'', ''Wed'', ''Thu'', ''Fri'', ''Sat''}"
proof -
  have "0 \<le> ((unixSec t + zoneOff t) div 86400 + 4) mod 7"
    and "((unixSec t + zoneOff t) div 86400 + 4) mod 7 < 7"
    by simp_all
  then have "Weekday t < 7"
    by (simp add: Weekday_def)
  then have "Weekday t = 0 \<or> Weekday t = 1 \<or> Weekday t = 2 \<or> Weekday t = 3 \<or> Weekday t = 4
    \<or> Weekday t = 5 \<or> Weekday t = 6"
    by arith
  then show ?thesis
    by (elim disjE) (simp_all add: WeekdayString_def)
qed

lemma clock_order:
  "Before (atClock h m) (atClock h' m') \<longleftrightarrow> h * 60 + m < h' * 60 + m'"
  "After (atClock h m) (atClock h' m') \<longleftrightarrow> h * 60 + m > h' * 60 + m'"
  by (auto simp: Before_def After_def atClock_def)

lemma clock_of_seconds:
  fixes h m :: int
  assumes "0 \<le> h" "h < 24" "0 \<le> m" "m < 60"
    and "unixSec t + zoneOff t = year0 + h * 3600 + m * 60"
  shows "Hour t = h" and "Minute t = m"
proof -
  define x where "x = 3600 * h + 60 * m"
  have sum: "unixSec t + zoneOff t = year0 + x"
    using assms(5) by (simp add: x_def)
  have x: "0 \<le> x" "x < 86400"
    using assms(1-4) by (simp_all add: x_def)
  have "(86400 * k + x) mod 86400 = x mod 86400" for k
    by simp
  from this [of "- 719528"] have "(year0 + x) mod 86400 = x mod 86400"
    by (simp add: year0_def)
  also have "\<dots> = x"
    using x by simp
  finally have day: "(unixSec t + zoneOff t) mod 86400 = x"
    by (simp add: sum)
  have "x div 3600 = h + (60 * m) div 3600"
    unfolding x_def by simp
  also have "(60 * m) div 3600 = 0"
    using assms(3,4) by simp
  finally show "Hour t = h"
    by (simp add: Hour_def day)
  have "(3600 * k + x) mod 3600 = x mod 3600" for k
    by simp
  from this [of "- 17268672"] have "(year0 + x) mod 3600 = x mod 3600"
    by (simp add: year0_def)
  also have "\<dots> = (60 * m) mod 3600"
    unfolding x_def by simp
  also have "\<dots> = 60 * m"
    using assms(3,4) by simp
  finally show "Minute t = m"
    by (simp add: Minute_def sum)
qed

lemma parseClockZone_utc:
  assumes "isDigit a" "isDigit b" "isDigit c" "isDigit d"
    and "digitVal a * 10 + digitVal b < 24" and "digitVal c * 10 + digitVal d < 60"
  shows "parseClockZone (CHR '' '' # a # b # CHR '':'' # c # d # '' +0000 UTC'') =
    Some \<lparr>unixSec = year0 + int (digitVal a * 10 + digitVal b) * 3600
              + int (digitVal c * 10 + digitVal d) * 60,
          zoneAbbr = ''UTC'', zoneOff = 0\<rparr>"
  using assms isDigit_not_space [OF assms(1)]
  by (simp add: parse_defs isDigit_def [of "CHR ''0''"] digitVal_def [of "CHR ''0''"]
      split del: if_split)

lemma parseClockZone_fields:
  assumes "parseClockZone v0 = Some conv"
  shows "\<exists>v1 hour v2 v3 minute v4.
           skipSpace v0 = Some v1 \<and> getnum v1 False = Some (hour, v2) \<and> hour < 24 \<and>
           skipChar CHR '':'' v2 = Some v3 \<and> getnum v3 True = Some (minute, v4) \<and> minute < 60 \<and>
           unixSec conv + zoneOff conv = year0 + int hour * 3600 + int minute * 60"
  using assms
  by (auto simp: parseClockZone_def bind_eq_Some_conv UTC_def split: if_splits prod.splits)

lemma getnum_before_space:
  assumes "getnum (u @ CHR '' '' # r) fixed = Some (n, v)"
  shows "\<exists>w. v = w @ CHR '' '' # r \<and> getnum u fixed = Some (n, w)"
proof (cases u)
  case Nil
  with assms show ?thesis
    by (simp add: getnum_def space_not_digit)
next
  case (Cons a u1)
  with assms show ?thesis
    by (cases u1) (auto simp: getnum_def space_not_digit split: if_splits)
qed

lemma skipChar_before_space:
  assumes "skipChar CHR '':'' (w @ CHR '' '' # r) = Some v"
  shows "\<exists>w'. v = w' @ CHR '' '' # r \<and> skipChar CHR '':'' w = Some w'"
  using assms by (cases w) (auto simp: skipChar_def split: if_splits)

lemma clockFields_prefix:
  assumes "getnum (u @ CHR '' '' # r) False = Some (hour, v2)"
    and "skipChar CHR '':'' v2 = Some v3"
    and "getnum v3 True = Some (minute, v4)"
    and "hour < 24" and "minute < 60"
  shows "clockFields u = Some (hour, minute)"
proof -
  from getnum_before_space [OF assms(1)] obtain w2
    where w2: "v2 = w2 @ CHR '' '' # r" "getnum u False = Some (hour, w2)"
    by auto
  from skipChar_before_space [of w2 r v3] assms(2) w2(1) obtain w3
    where w3: "v3 = w3 @ CHR '' '' # r" "skipChar CHR '':'' w2 = Some w3"
    by auto
  from getnum_before_space [of w3 r True minute v4] assms(3) w3(1) obtain w4
    where "getnum w3 True = Some (minute, w4)"
    by auto
  with w2(2) w3(2) assms(4,5) show ?thesis
    by (simp add: clockFields_def)
qed

lemma clockOfText_parsed:
  assumes "parseClockZone (CHR '' '' # t @ CHR '' '' # sg # s) = Some conv"
    and "sg = CHR ''+'' \<or> sg = CHR ''-''"
  shows "\<exists>hour minute. clockOfText t = Some (hour, minute) \<and>
           unixSec conv + zoneOff conv = year0 + int hour * 3600 + int minute * 60"
proof -
  let ?sp = "\<lambda>c. c = CHR '' ''"
  from parseClockZone_fields [OF assms(1)] obtain hour v2 v3 minute v4
    where fields: "getnum (dropWhile ?sp (t @ CHR '' '' # sg # s)) False = Some (hour, v2)"
      "hour < 24" "skipChar CHR '':'' v2 = Some v3" "getnum v3 True = Some (minute, v4)"
      "minute < 60"
      "unixSec conv + zoneOff conv = year0 + int hour * 3600 + int minute * 60"
    by (auto simp: skipSpace_def)
  have sign: "\<not> isDigit sg" "sg \<noteq> CHR '' ''"
    using assms(2) by (auto simp: isDigit_def)
  have "\<not> (\<forall>c \<in> set t. c = CHR '' '')"
  proof
    assume "\<forall>c \<in> set t. c = CHR '' ''"
    then have "dropWhile ?sp (t @ CHR '' '' # sg # s) = sg # s"
      using sign by (simp add: dropWhile_append)
    with fields(1) sign show False
      by (simp add: getnum_def)
  qed
  then have "dropWhile ?sp (t @ CHR '' '' # sg # s) = dropWhile ?sp t @ CHR '' '' # sg # s"
    by (auto simp: dropWhile_append)
  with fields have "clockFields (dropWhile ?sp t) = Some (hour, minute)"
    using clockFields_prefix [of "dropWhile ?sp t" "sg # s" hour v2 v3 minute v4] by simp
  with fields(6) show ?thesis
    by (auto simp: clockOfText_def)
qed

section \<open>Facts about the conversions of times\<close>

text \<open>\<^verbatim>\<open>getRidOfDate\<close> never fails: it keeps the hour and the minute and moves them to UTC.\<close>

lemma getRidOfDate_eq: "getRidOfDate t = Inr (atClock (Hour t) (Minute t))"
proof -
  define h where "h = nat (Hour t)"
  define m where "m = nat (Minute t)"
  have h: "Hour t = int h" "h < 24"
    using Hour_range [of t] by (auto simp: h_def)
  have m: "Minute t = int m" "m < 60"
    using Minute_range [of t] by (auto simp: m_def)
  have hd: "h div 10 < 10" "h mod 10 < 10" and md: "m div 10 < 10" "m mod 10 < 10"
    using h m by simp_all
  have fh: "fmt_02d (int h) = [digitChar (h div 10), digitChar (h mod 10)]"
    using h by (simp add: fmt_02d_def atLeast2Digits_two)
  have fm: "fmt_02d (int m) = [digitChar (m div 10), digitChar (m mod 10)]"
    using m by (simp add: fmt_02d_def atLeast2Digits_two)
  have "parseClockZone (CHR '' '' # digitChar (h div 10) # digitChar (h mod 10) # CHR '':''
          # digitChar (m div 10) # digitChar (m mod 10) # '' +0000 UTC'') =
        Some \<lparr>unixSec = year0 + int h * 3600 + int m * 60, zoneAbbr = ''UTC'', zoneOff = 0\<rparr>"
    using parseClockZone_utc [of "digitChar (h div 10)" "digitChar (h mod 10)"
        "digitChar (m div 10)" "digitChar (m mod 10)"] hd md h m
    by (simp add: digitChar_digit)
  then show ?thesis
    by (simp add: getRidOfDate_def timeParse_def atClock_def fh fm h m)
qed

text \<open>The current time of day and the day of the week, in closed form.\<close>

lemma ConvertTimeNowToLocal_eq:
  "ConvertTimeNowToLocal e tz =
     (case LoadLocation e tz of
        Inl err \<Rightarrow> Inl err
      | Inr loc \<Rightarrow>
          Inr (atClock (Hour (NowIn e loc)) (Minute (NowIn e loc)),
               take 3 (WeekdayString (Weekday (NowIn e loc)))))"
  by (simp add: ConvertTimeNowToLocal_def getRidOfDate_eq Let_def split: sum.splits)

text \<open>
  A start or stop time that \<^verbatim>\<open>ConvertAnnotationTime\<close> accepts becomes, without its date,
  the clock time at the head of the annotation's text, whatever the time zone.
\<close>

lemma ConvertAnnotationTime_clock:
  assumes "ConvertAnnotationTime e t timeZone = Inr conv"
  shows "\<exists>hour minute. clockOfText t = Some (hour, minute) \<and>
           getRidOfDate conv = Inr (atClock (int hour) (int minute))"
proof -
  from assms obtain abbr off where loc: "LoadLocation e timeZone = Inr (abbr, off)"
    by (auto simp: ConvertAnnotationTime_def split: sum.splits)
  obtain sg ds where sign: "fmt_plus_prec2 (off sdiv 3600) = sg # ds" "sg = CHR ''+'' \<or> sg = CHR ''-''"
    by (cases "off sdiv 3600 < 0") (auto simp: fmt_plus_prec2_def)
  from assms loc sign(1)
  have "parseClockZone (CHR '' '' # t @ CHR '' '' # sg # (ds @ fmt_prec2 (off smod 3600) @ CHR '' '' # abbr))
      = Some conv"
    by (auto simp: ConvertAnnotationTime_def NowIn_def Zone_def timeParse_def Let_def
        split: option.splits)
  from clockOfText_parsed [OF this sign(2)] obtain hour minute
    where clock: "clockOfText t = Some (hour, minute)"
      "unixSec conv + zoneOff conv = year0 + int hour * 3600 + int minute * 60"
    by auto
  from clock(1) have "hour < 24" "minute < 60"
    by (auto simp: clockOfText_def clockFields_def bind_eq_Some_conv split: if_splits)
  then have "Hour conv = int hour" "Minute conv = int minute"
    using clock_of_seconds [of "int hour" "int minute" conv] clock(2) by simp_all
  with clock(1) show ?thesis
    by (simp add: getRidOfDate_eq)
qed

section \<open>Facts about the deciders and the checks\<close>

lemmas Action_defs = Upscale_def Downscale_def NoAction_def Suspend_def Resume_def

lemma deploymentWindowAction_Downscale_iff:
  "fst (deploymentWindowAction annotations replicas timeNow timeStartTime timeStopTime) = Downscale
   \<longleftrightarrow> (Before timeStopTime timeNow \<or> After timeStartTime timeNow) \<and>
     (\<exists>d. ParseInt32 (getOrEmpty annotations annotationDownTimeReplicas) = Inr d \<and>
          replicas \<noteq> int32 d)"
  by (auto simp: deploymentWindowAction_def Let_def Action_defs Before_def After_def
      split: sum.splits)

lemma deploymentWindowAction_Upscale_iff:
  "fst (deploymentWindowAction annotations replicas timeNow timeStartTime timeStopTime) = Upscale
   \<longleftrightarrow> (Before timeStartTime timeNow \<and> \<not> Before timeStopTime timeNow) \<and>
     (\<exists>d. ParseInt32 (getOrEmpty annotations annotationOriginalReplicas) = Inr d \<and>
          replicas \<noteq> int32 d)"
  by (auto simp: deploymentWindowAction_def Let_def Action_defs Before_def After_def
      split: sum.splits)

lemma deploymentWindowAction_range:
  "fst (deploymentWindowAction annotations replicas timeNow timeStartTime timeStopTime)
     \<in> {Upscale, Downscale, NoAction}"
  by (auto simp: deploymentWindowAction_def Let_def split: sum.splits)

lemma cronjobWindowAction_Suspend_iff:
  "cronjobWindowAction suspend timeNow timeStartTime timeStopTime = Suspend
   \<longleftrightarrow> (Before timeStopTime timeNow \<or> After timeStartTime timeNow) \<and> \<not> suspend"
  by (auto simp: cronjobWindowAction_def Let_def Action_defs Before_def After_def)

lemma cronjobWindowAction_Resume_iff:
  "cronjobWindowAction suspend timeNow timeStartTime timeStopTime = Resume
   \<longleftrightarrow> (Before timeStartTime timeNow \<and> \<not> Before timeStopTime timeNow) \<and> suspend"
  by (auto simp: cronjobWindowAction_def Let_def Action_defs Before_def After_def)

lemma cronjobWindowAction_range:
  "cronjobWindowAction suspend timeNow timeStartTime timeStopTime \<in> {Suspend, Resume, NoAction}"
  by (auto simp: cronjobWindowAction_def Let_def)

text \<open>
  The two tests of the deciders leave out the start time itself: there a resource is
  neither down nor up, whatever its state. At the stop time it is still up, and after
  it down.
\<close>

lemma window_at_start:
  "cronjobWindowAction suspend timeNow timeNow timeStopTime =
     (if Before timeStopTime timeNow \<and> \<not> suspend then Suspend else NoAction)"
  "\<not> Before timeStopTime timeNow \<Longrightarrow>
     deploymentWindowAction annotations replicas timeNow timeNow timeStopTime = (NoAction, [])"
  by (auto simp: cronjobWindowAction_def deploymentWindowAction_def Before_def After_def)

lemma window_at_stop:
  "Before timeStartTime timeStopTime \<Longrightarrow>
     cronjobWindowAction suspend timeStopTime timeStartTime timeStopTime =
       (if suspend then Resume else NoAction)"
  by (auto simp: cronjobWindowAction_def Before_def After_def)

lemma window_after_stop:
  "Before timeStopTime timeNow \<Longrightarrow>
     cronjobWindowAction suspend timeNow timeStartTime timeStopTime =
       (if suspend then NoAction else Suspend)"
  by (auto simp: cronjobWindowAction_def Before_def After_def)

lemma getDeploymentActionNeeded_Inl:
  "normalizedTimes e annotations = Inl out \<Longrightarrow>
     getDeploymentActionNeeded e annotations replicas = (NoAction, out)"
  by (simp add: getDeploymentActionNeeded_def)

lemma getDeploymentActionNeeded_Inr:
  "normalizedTimes e annotations = Inr (timeNow, timeStartTime, timeStopTime) \<Longrightarrow>
     getDeploymentActionNeeded e annotations replicas =
       (fst (deploymentWindowAction annotations replicas timeNow timeStartTime timeStopTime),
        Printed timeNow timeStartTime timeStopTime (getOrEmpty annotations annotationTimeZone)
          # snd (deploymentWindowAction annotations replicas timeNow timeStartTime timeStopTime))"
  by (simp add: getDeploymentActionNeeded_def split: prod.splits)

lemma getCronjobActionNeeded_Inl:
  "normalizedTimes e annotations = Inl out \<Longrightarrow>
     getCronjobActionNeeded e annotations suspend = (NoAction, out)"
  by (simp add: getCronjobActionNeeded_def)

lemma getCronjobActionNeeded_Inr:
  "normalizedTimes e annotations = Inr (timeNow, timeStartTime, timeStopTime) \<Longrightarrow>
     getCronjobActionNeeded e annotations suspend =
       (cronjobWindowAction suspend timeNow timeStartTime timeStopTime,
        [Printed timeNow timeStartTime timeStopTime (getOrEmpty annotations annotationTimeZone)])"
  by (simp add: getCronjobActionNeeded_def)

lemma decider_times:
  assumes "fst (getDeploymentActionNeeded e annotations replicas) \<noteq> NoAction \<or>
           fst (getCronjobActionNeeded e annotations suspend) \<noteq> NoAction"
  shows "\<exists>timeNow timeStartTime timeStopTime.
           normalizedTimes e annotations = Inr (timeNow, timeStartTime, timeStopTime)"
proof (cases "normalizedTimes e annotations")
  case (Inl out)
  with assms show ?thesis
    by (simp add: getDeploymentActionNeeded_Inl getCronjobActionNeeded_Inl)
next
  case (Inr times)
  then show ?thesis
    by (cases times) auto
qed

lemma decider_parsed:
  "fst (getDeploymentActionNeeded e annotations replicas) = Downscale \<Longrightarrow>
     \<exists>d. ParseInt32 (getOrEmpty annotations annotationDownTimeReplicas) = Inr d"
  "fst (getDeploymentActionNeeded e annotations replicas) = Upscale \<Longrightarrow>
     \<exists>d. ParseInt32 (getOrEmpty annotations annotationOriginalReplicas) = Inr d"
proof -
  assume down: "fst (getDeploymentActionNeeded e annotations replicas) = Downscale"
  then obtain timeNow timeStartTime timeStopTime
    where "normalizedTimes e annotations = Inr (timeNow, timeStartTime, timeStopTime)"
    using decider_times [of e annotations replicas] by (auto simp: Action_defs)
  with down show "\<exists>d. ParseInt32 (getOrEmpty annotations annotationDownTimeReplicas) = Inr d"
    by (auto simp: getDeploymentActionNeeded_Inr deploymentWindowAction_Downscale_iff)
next
  assume up: "fst (getDeploymentActionNeeded e annotations replicas) = Upscale"
  then obtain timeNow timeStartTime timeStopTime
    where "normalizedTimes e annotations = Inr (timeNow, timeStartTime, timeStopTime)"
    using decider_times [of e annotations replicas] by (auto simp: Action_defs)
  with up show "\<exists>d. ParseInt32 (getOrEmpty annotations annotationOriginalReplicas) = Inr d"
    by (auto simp: getDeploymentActionNeeded_Inr deploymentWindowAction_Upscale_iff)
qed

lemma decider_range:
  "fst (getDeploymentActionNeeded e annotations replicas) \<in> {Upscale, Downscale, NoAction}"
  "fst (getCronjobActionNeeded e annotations suspend) \<in> {Suspend, Resume, NoAction}"
proof -
  show "fst (getDeploymentActionNeeded e annotations replicas) \<in> {Upscale, Downscale, NoAction}"
  proof (cases "normalizedTimes e annotations")
    case (Inl out)
    then show ?thesis
      by (simp add: getDeploymentActionNeeded_Inl)
  next
    case (Inr times)
    then show ?thesis
      using deploymentWindowAction_range
      by (cases times) (simp add: getDeploymentActionNeeded_Inr)
  qed
  show "fst (getCronjobActionNeeded e annotations suspend) \<in> {Suspend, Resume, NoAction}"
  proof (cases "normalizedTimes e annotations")
    case (Inl out)
    then show ?thesis
      by (simp add: getCronjobActionNeeded_Inl)
  next
    case (Inr times)
    then show ?thesis
      using cronjobWindowAction_range
      by (cases times) (simp add: getCronjobActionNeeded_Inr)
  qed
qed

lemma normalizedTimes_clocks:
  assumes "normalizedTimes e annotations = Inr (timeNow, timeStartTime, timeStopTime)"
  shows "\<exists>startTime stopTime hs ms ht mt loc.
           annotations annotationStartTime = Some startTime \<and>
           annotations annotationStopTime = Some stopTime \<and>
           clockOfText startTime = Some (hs, ms) \<and> clockOfText stopTime = Some (ht, mt) \<and>
           timeStartTime = atClock (int hs) (int ms) \<and> timeStopTime = atClock (int ht) (int mt) \<and>
           LoadLocation e (getOrEmpty annotations annotationTimeZone) = Inr loc \<and>
           timeNow = atClock (Hour (NowIn e loc)) (Minute (NowIn e loc))"
proof -
  let ?tz = "getOrEmpty annotations annotationTimeZone"
  from assms obtain today startTime stopTime startTimeConv stopTimeConv
    where steps: "ConvertTimeNowToLocal e ?tz = Inr (timeNow, today)"
      "annotations annotationStartTime = Some startTime"
      "annotations annotationStopTime = Some stopTime"
      "ConvertAnnotationTime e startTime ?tz = Inr startTimeConv"
      "getRidOfDate startTimeConv = Inr timeStartTime"
      "ConvertAnnotationTime e stopTime ?tz = Inr stopTimeConv"
      "getRidOfDate stopTimeConv = Inr timeStopTime"
    by (auto simp: normalizedTimes_def Let_def split: sum.splits option.splits prod.splits)
  from steps(1) obtain loc where "LoadLocation e ?tz = Inr loc"
    "timeNow = atClock (Hour (NowIn e loc)) (Minute (NowIn e loc))"
    by (auto simp: ConvertTimeNowToLocal_eq split: sum.splits)
  with steps ConvertAnnotationTime_clock [OF steps(4)] ConvertAnnotationTime_clock [OF steps(6)]
  show ?thesis
    by auto
qed

lemma normalizedTimes_missing:
  assumes "annotations annotationStartTime = None \<or> annotations annotationStopTime = None"
    and "ConvertTimeNowToLocal e (getOrEmpty annotations annotationTimeZone) = Inr now"
  shows "normalizedTimes e annotations = Inl []"
  using assms by (auto simp: normalizedTimes_def Let_def split: prod.splits option.splits)

text \<open>
  Without \<^verbatim>\<open>d8r/timeZone\<close> the deciders themselves compute in UTC; it is the checks that
  skip such a resource.
\<close>

lemma normalizedTimes_without_zone:
  assumes "annotations annotationTimeZone = None"
  shows "normalizedTimes e annotations = normalizedTimes e (annotations(annotationTimeZone \<mapsto> ''UTC''))"
proof -
  have "LoadLocation e [] = LoadLocation e ''UTC''"
    by (simp add: LoadLocation_def)
  then have "ConvertTimeNowToLocal e [] = ConvertTimeNowToLocal e ''UTC''"
    and "ConvertAnnotationTime e t [] = ConvertAnnotationTime e t ''UTC''" for t
    by (simp_all add: ConvertTimeNowToLocal_def ConvertAnnotationTime_def)
  with assms show ?thesis
    by (simp add: normalizedTimes_def getOrEmpty_def Let_def
        cong: sum.case_cong option.case_cong prod.case_cong)
qed

lemma check_decision:
  "fst (isDeploymentActionNeeded e annotations replicas) \<Longrightarrow>
     fst (getDeploymentActionNeeded e annotations replicas) \<noteq> NoAction"
  "fst (isCronjobActionNeeded e annotations suspend) \<Longrightarrow>
     fst (getCronjobActionNeeded e annotations suspend) \<noteq> NoAction"
  by (auto simp: isDeploymentActionNeeded_def isCronjobActionNeeded_def
      split: option.splits sum.splits prod.splits if_splits)

lemma check_missing:
  assumes "annotations annotationDays = None \<or> annotations annotationStartTime = None \<or>
           annotations annotationStopTime = None \<or> annotations annotationTimeZone = None"
  shows "isDeploymentActionNeeded e annotations replicas = (False, timeZoneErrors e annotations)"
    and "isCronjobActionNeeded e annotations suspend = (False, timeZoneErrors e annotations)"
proof -
  show "isDeploymentActionNeeded e annotations replicas = (False, timeZoneErrors e annotations)"
  proof (cases "annotations annotationDays = None \<or> annotations annotationTimeZone = None")
    case True
    then show ?thesis
      by (auto simp: isDeploymentActionNeeded_def timeZoneErrors_def split: option.splits)
  next
    case False
    then obtain days timeZone where keys: "annotations annotationDays = Some days"
      "annotations annotationTimeZone = Some timeZone"
      by auto
    with assms have missing:
      "annotations annotationStartTime = None \<or> annotations annotationStopTime = None"
      by auto
    show ?thesis
    proof (cases "LoadLocation e timeZone")
      case (Inl err)
      with keys show ?thesis
        by (simp add: isDeploymentActionNeeded_def ConvertTimeNowToLocal_eq timeZoneErrors_def)
    next
      case (Inr loc)
      then obtain now where now: "ConvertTimeNowToLocal e timeZone = Inr now"
        by (simp add: ConvertTimeNowToLocal_eq)
      with keys have "normalizedTimes e annotations = Inl []"
        using normalizedTimes_missing [OF missing, of e now] by (simp add: getOrEmpty_def)
      with keys now Inr show ?thesis
        by (simp add: isDeploymentActionNeeded_def getDeploymentActionNeeded_Inl timeZoneErrors_def
            split: prod.splits option.splits)
    qed
  qed
  show "isCronjobActionNeeded e annotations suspend = (False, timeZoneErrors e annotations)"
  proof (cases "annotations annotationDays = None \<or> annotations annotationTimeZone = None")
    case True
    then show ?thesis
      by (auto simp: isCronjobActionNeeded_def timeZoneErrors_def split: option.splits)
  next
    case False
    then obtain days timeZone where keys: "annotations annotationDays = Some days"
      "annotations annotationTimeZone = Some timeZone"
      by auto
    with assms have missing:
      "annotations annotationStartTime = None \<or> annotations annotationStopTime = None"
      by auto
    show ?thesis
    proof (cases "LoadLocation e timeZone")
      case (Inl err)
      with keys show ?thesis
        by (simp add: isCronjobActionNeeded_def ConvertTimeNowToLocal_eq timeZoneErrors_def)
    next
      case (Inr loc)
      then obtain now where now: "ConvertTimeNowToLocal e timeZone = Inr now"
        by (simp add: ConvertTimeNowToLocal_eq)
      with keys have "normalizedTimes e annotations = Inl []"
        using normalizedTimes_missing [OF missing, of e now] by (simp add: getOrEmpty_def)
      with keys now Inr show ?thesis
        by (simp add: isCronjobActionNeeded_def getCronjobActionNeeded_Inl timeZoneErrors_def
            split: prod.splits option.splits)
    qed
  qed
qed

section \<open>Facts about the drivers\<close>

lemma checkDeployment_written:
  "fst (checkDeployment eCheck eAct update deployment) =
     (if fst (isDeploymentActionNeeded eCheck (Annotations deployment) (SpecReplicas deployment)) then
        (if fst (getDeploymentActionNeeded eAct (Annotations deployment) (SpecReplicas deployment))
              = Downscale then
           (case ParseInt32 (getOrEmpty (Annotations deployment) annotationDownTimeReplicas) of
              Inl err \<Rightarrow> None
            | Inr downTimeReplicas \<Rightarrow>
                Some (deployment
                  \<lparr>Annotations := (Annotations deployment)
                     (annotationOriginalReplicas \<mapsto> fmt_d (sint (SpecReplicas deployment))),
                   SpecReplicas := int32 downTimeReplicas\<rparr>))
         else if fst (getDeploymentActionNeeded eAct (Annotations deployment)
                        (SpecReplicas deployment)) = Upscale then
           (case ParseInt32 (getOrEmpty (Annotations deployment) annotationOriginalReplicas) of
              Inl err \<Rightarrow> None
            | Inr originalReplicas \<Rightarrow> Some (deployment\<lparr>SpecReplicas := int32 originalReplicas\<rparr>))
         else None)
      else None)"
  by (simp add: checkDeployment_def Let_def split: prod.splits sum.splits)

lemma checkCronjob_written:
  "fst (checkCronjob eCheck eAct update cronjob) =
     (if fst (isCronjobActionNeeded eCheck (Annotations cronjob) (SpecSuspend cronjob)) then
        (if fst (getCronjobActionNeeded eAct (Annotations cronjob) (SpecSuspend cronjob)) = Suspend
         then Some (cronjob\<lparr>SpecSuspend := True\<rparr>)
         else if fst (getCronjobActionNeeded eAct (Annotations cronjob) (SpecSuspend cronjob))
                   = Resume
         then Some (cronjob\<lparr>SpecSuspend := False\<rparr>)
         else None)
      else None)"
  by (simp add: checkCronjob_def Let_def split: prod.splits)

lemma check_false:
  "\<not> fst (isDeploymentActionNeeded eCheck (Annotations deployment) (SpecReplicas deployment)) \<Longrightarrow>
     checkDeployment eCheck eAct update deployment =
       (None, snd (isDeploymentActionNeeded eCheck (Annotations deployment) (SpecReplicas deployment)))"
  "\<not> fst (isCronjobActionNeeded eCheck (Annotations cronjob) (SpecSuspend cronjob)) \<Longrightarrow>
     checkCronjob eCheck eAct update' cronjob =
       (None, snd (isCronjobActionNeeded eCheck (Annotations cronjob) (SpecSuspend cronjob)))"
proof -
  show "checkDeployment eCheck eAct update deployment =
       (None, snd (isDeploymentActionNeeded eCheck (Annotations deployment) (SpecReplicas deployment)))"
    if "\<not> fst (isDeploymentActionNeeded eCheck (Annotations deployment) (SpecReplicas deployment))"
    using that
    by (cases "isDeploymentActionNeeded eCheck (Annotations deployment) (SpecReplicas deployment)")
      (simp add: checkDeployment_def Let_def)
  show "checkCronjob eCheck eAct update' cronjob =
       (None, snd (isCronjobActionNeeded eCheck (Annotations cronjob) (SpecSuspend cronjob)))"
    if "\<not> fst (isCronjobActionNeeded eCheck (Annotations cronjob) (SpecSuspend cronjob))"
    using that
    by (cases "isCronjobActionNeeded eCheck (Annotations cronjob) (SpecSuspend cronjob)")
      (simp add: checkCronjob_def Let_def)
qed

section \<open>The program on the examples\<close>

lemma LoadLocation_winter:
  "zoneinfo e = winterZones \<Longrightarrow> LoadLocation e ''Europe/Prague'' = Inr (''CET'', 3600)"
  by (simp add: LoadLocation_def winterZones_def)

lemma sprintf_offset_winter: "fmt_plus_prec2 1 = ''+01''" "fmt_prec2 0 = ''00''"
  by (simp_all add: fmt_plus_prec2_def fmt_prec2_def atLeast2Digits_def decimal.simps digitChar_def)

lemma parse_0800: "timeParse ''0000-Jan-01 08:00 +0100 CET'' =
    Inr \<lparr>unixSec = year0 + 25200, zoneAbbr = ''CET'', zoneOff = 3600\<rparr>"
  by (simp add: parse_defs isDigit_def isUpper_def digitVal_def split del: if_split)

lemma parse_1600: "timeParse ''0000-Jan-01 16:00 +0100 CET'' =
    Inr \<lparr>unixSec = year0 + 54000, zoneAbbr = ''CET'', zoneOff = 3600\<rparr>"
  by (simp add: parse_defs isDigit_def isUpper_def digitVal_def split del: if_split)

lemma parse_2200: "timeParse ''0000-Jan-01 22:00 +0100 CET'' =
    Inr \<lparr>unixSec = year0 + 75600, zoneAbbr = ''CET'', zoneOff = 3600\<rparr>"
  by (simp add: parse_defs isDigit_def isUpper_def digitVal_def split del: if_split)

lemma parse_0600: "timeParse ''0000-Jan-01 06:00 +0100 CET'' =
    Inr \<lparr>unixSec = year0 + 18000, zoneAbbr = ''CET'', zoneOff = 3600\<rparr>"
  by (simp add: parse_defs isDigit_def isUpper_def digitVal_def split del: if_split)

lemma ConvertAnnotationTime_winter:
  assumes "zoneinfo e = winterZones"
  shows "ConvertAnnotationTime e t ''Europe/Prague'' =
           timeParse (''0000-Jan-01 '' @ t @ '' +0100 CET'')"
  by (simp add: ConvertAnnotationTime_def LoadLocation_winter [OF assms] NowIn_def Zone_def
      sprintf_offset_winter)

lemma dateless_winter:
  "getRidOfDate \<lparr>unixSec = year0 + 25200, zoneAbbr = ''CET'', zoneOff = 3600\<rparr> = Inr (atClock 8 0)"
  "getRidOfDate \<lparr>unixSec = year0 + 54000, zoneAbbr = ''CET'', zoneOff = 3600\<rparr> = Inr (atClock 16 0)"
  "getRidOfDate \<lparr>unixSec = year0 + 75600, zoneAbbr = ''CET'', zoneOff = 3600\<rparr> = Inr (atClock 22 0)"
  "getRidOfDate \<lparr>unixSec = year0 + 18000, zoneAbbr = ''CET'', zoneOff = 3600\<rparr> = Inr (atClock 6 0)"
  by (simp_all add: getRidOfDate_eq Hour_def Minute_def year0_def)

lemma now_winter:
  "ConvertTimeNowToLocal (pragueAt 20 0) ''Europe/Prague'' = Inr (atClock 20 0, ''Wed'')"
  "ConvertTimeNowToLocal (pragueAt 9 0) ''Europe/Prague'' = Inr (atClock 9 0, ''Wed'')"
  "ConvertTimeNowToLocal (pragueAt 8 0) ''Europe/Prague'' = Inr (atClock 8 0, ''Wed'')"
  "ConvertTimeNowToLocal (pragueAt 8 1) ''Europe/Prague'' = Inr (atClock 8 1, ''Wed'')"
  "ConvertTimeNowToLocal (pragueAt 16 0) ''Europe/Prague'' = Inr (atClock 16 0, ''Wed'')"
  "ConvertTimeNowToLocal (pragueAt 16 1) ''Europe/Prague'' = Inr (atClock 16 1, ''Wed'')"
  "ConvertTimeNowToLocal (pragueAt 23 0) ''Europe/Prague'' = Inr (atClock 23 0, ''Wed'')"
  "ConvertTimeNowToLocal (pragueSaturdayAt 20 0) ''Europe/Prague'' = Inr (atClock 20 0, ''Sat'')"
  by (simp_all add: ConvertTimeNowToLocal_eq LoadLocation_winter pragueAt_def pragueSaturdayAt_def
      NowIn_def Hour_def Minute_def Weekday_def WeekdayString_def)

lemma normalizedTimes_day:
  assumes "zoneinfo e = winterZones"
    and "annotations annotationTimeZone = Some ''Europe/Prague''"
    and "annotations annotationStartTime = Some ''08:00''"
    and "annotations annotationStopTime = Some ''16:00''"
    and "ConvertTimeNowToLocal e ''Europe/Prague'' = Inr (timeNow, today)"
  shows "normalizedTimes e annotations = Inr (timeNow, atClock 8 0, atClock 16 0)"
  using assms(2-5)
  by (simp add: normalizedTimes_def getOrEmpty_def ConvertAnnotationTime_winter [OF assms(1)]
      parse_0800 parse_1600 dateless_winter)

lemma normalizedTimes_night:
  assumes "zoneinfo e = winterZones"
    and "annotations annotationTimeZone = Some ''Europe/Prague''"
    and "annotations annotationStartTime = Some ''22:00''"
    and "annotations annotationStopTime = Some ''06:00''"
    and "ConvertTimeNowToLocal e ''Europe/Prague'' = Inr (timeNow, today)"
  shows "normalizedTimes e annotations = Inr (timeNow, atClock 22 0, atClock 6 0)"
  using assms(2-5)
  by (simp add: normalizedTimes_def getOrEmpty_def ConvertAnnotationTime_winter [OF assms(1)]
      parse_2200 parse_0600 dateless_winter)

lemma zoneinfo_pragueAt:
  "zoneinfo (pragueAt h m) = winterZones" "zoneinfo (pragueSaturdayAt h m) = winterZones"
  by (simp_all add: pragueAt_def pragueSaturdayAt_def)

lemma nginx_times:
  assumes "ConvertTimeNowToLocal (pragueAt h m) ''Europe/Prague'' = Inr (timeNow, today)"
  shows "normalizedTimes (pragueAt h m) nginxAnnotations = Inr (timeNow, atClock 8 0, atClock 16 0)"
    and "normalizedTimes (pragueAt h m) (nginxAnnotations(annotationOriginalReplicas \<mapsto> v)) =
           Inr (timeNow, atClock 8 0, atClock 16 0)"
  by (rule normalizedTimes_day [OF zoneinfo_pragueAt(1) _ _ _ assms];
      simp add: nginxAnnotations_def)+

lemma ParseInt32_small: "ParseInt32 ''1'' = Inr 1" "ParseInt32 ''2'' = Inr 2"
  by (simp_all add: ParseInt32_def ParseUint32_def isDigit_def digitVal_def)

lemma nginx_replica_annotations:
  "getOrEmpty nginxAnnotations annotationDownTimeReplicas = ''1''"
  "getOrEmpty (nginxAnnotations(annotationOriginalReplicas \<mapsto> v)) annotationDownTimeReplicas = ''1''"
  "getOrEmpty (nginxAnnotations(annotationOriginalReplicas \<mapsto> v)) annotationOriginalReplicas = v"
  "getOrEmpty nginxAnnotations annotationOriginalReplicas = []"
  by (simp_all add: getOrEmpty_def nginxAnnotations_def)

lemma night_times:
  assumes "ConvertTimeNowToLocal (pragueAt h m) ''Europe/Prague'' = Inr (timeNow, today)"
  shows "normalizedTimes (pragueAt h m) nightAnnotations = Inr (timeNow, atClock 22 0, atClock 6 0)"
  by (rule normalizedTimes_night [OF zoneinfo_pragueAt(1) _ _ _ assms];
      simp add: nightAnnotations_def)

lemma night_replica_annotations:
  "getOrEmpty nightAnnotations annotationDownTimeReplicas = ''1''"
  by (simp add: getOrEmpty_def nightAnnotations_def)

lemma Contains_weekdays: "Contains ''Mon,Tue,Wed,Thu,Fri'' ''Wed''"
  "\<not> Contains ''Mon,Tue,Wed,Thu,Fri'' ''Sat''"
  by simp_all

lemma nginx_gate_annotations:
  "nginxAnnotations annotationDays = Some ''Mon,Tue,Wed,Thu,Fri''"
  "nginxAnnotations annotationTimeZone = Some ''Europe/Prague''"
  "nginxAnnotations annotationDownTimeReplicas = Some ''1''"
  by (simp_all add: nginxAnnotations_def)

lemma fmt_d_two: "fmt_d 2 = ''2''"
  by (simp add: fmt_d_def decimal.simps digitChar_def)

lemma nginx_check_night:
  "fst (isDeploymentActionNeeded (pragueAt 20 0) nginxAnnotations 2)"
  "fst (getDeploymentActionNeeded (pragueAt 20 0) nginxAnnotations 2) = Downscale"
proof -
  note night = nginx_times(1) [OF now_winter(1)]
  show down: "fst (getDeploymentActionNeeded (pragueAt 20 0) nginxAnnotations 2) = Downscale"
    by (simp add: getDeploymentActionNeeded_Inr [OF night] deploymentWindowAction_def clock_order
        nginx_replica_annotations ParseInt32_small int32_def)
  then show "fst (isDeploymentActionNeeded (pragueAt 20 0) nginxAnnotations 2)"
    by (auto simp: isDeploymentActionNeeded_def nginx_gate_annotations now_winter(1)
        Contains_weekdays Action_defs split: prod.splits)
qed

lemma nginx_check_day:
  "fst (isDeploymentActionNeeded (pragueAt 9 0)
     (nginxAnnotations(annotationOriginalReplicas \<mapsto> ''2'')) 1)"
  "fst (getDeploymentActionNeeded (pragueAt 9 0)
     (nginxAnnotations(annotationOriginalReplicas \<mapsto> ''2'')) 1) = Upscale"
proof -
  note day = nginx_times(2) [OF now_winter(2)]
  show up: "fst (getDeploymentActionNeeded (pragueAt 9 0)
     (nginxAnnotations(annotationOriginalReplicas \<mapsto> ''2'')) 1) = Upscale"
    by (simp add: getDeploymentActionNeeded_Inr [OF day] deploymentWindowAction_def clock_order
        nginx_replica_annotations ParseInt32_small int32_def)
  then show "fst (isDeploymentActionNeeded (pragueAt 9 0)
     (nginxAnnotations(annotationOriginalReplicas \<mapsto> ''2'')) 1)"
    by (auto simp: isDeploymentActionNeeded_def nginx_gate_annotations now_winter(2)
        Contains_weekdays Action_defs split: prod.splits)
qed

lemma nginx_rounds:
  "fst (checkDeployment (pragueAt 20 0) (pragueAt 20 0) noUpdateError nginx) =
     Some (nginx\<lparr>Annotations := nginxAnnotations(annotationOriginalReplicas \<mapsto> ''2''),
                 SpecReplicas := 1\<rparr>)"
  "fst (checkDeployment (pragueAt 9 0) (pragueAt 9 0) noUpdateError
          (nginx\<lparr>Annotations := nginxAnnotations(annotationOriginalReplicas \<mapsto> ''2''),
                  SpecReplicas := 1\<rparr>)) =
     Some (nginx\<lparr>Annotations := nginxAnnotations(annotationOriginalReplicas \<mapsto> ''2''),
                 SpecReplicas := 2\<rparr>)"
  using nginx_check_night nginx_check_day
  by (simp_all add: checkDeployment_written nginx_def nginx_replica_annotations ParseInt32_small
      int32_def fmt_d_two Action_defs)

lemma clockOfText_examples:
  "clockOfText ''22:00'' = Some (22, 0)" "clockOfText ''06:00'' = Some (6, 0)"
  "clockOfText ''08:00'' = Some (8, 0)" "clockOfText ''16:00'' = Some (16, 0)"
  by (simp_all add: clockOfText_def clockFields_def getnum_def skipChar_def isDigit_def digitVal_def)

lemma now_before_start:
  "ConvertTimeNowToLocal (pragueAt 7 59) ''Europe/Prague'' = Inr (atClock 7 59, ''Wed'')"
  by (simp add: ConvertTimeNowToLocal_eq LoadLocation_winter pragueAt_def
      NowIn_def Hour_def Minute_def Weekday_def WeekdayString_def)

lemma nginx_check_before_start:
  "fst (isDeploymentActionNeeded (pragueAt 7 59) nginxAnnotations 2)"
  "fst (getDeploymentActionNeeded (pragueAt 8 0) nginxAnnotations 2) = NoAction"
proof -
  note early = nginx_times(1) [OF now_before_start] and start = nginx_times(1) [OF now_winter(3)]
  have "fst (getDeploymentActionNeeded (pragueAt 7 59) nginxAnnotations 2) = Downscale"
    by (simp add: getDeploymentActionNeeded_Inr [OF early] deploymentWindowAction_def clock_order
        nginx_replica_annotations ParseInt32_small int32_def)
  then show "fst (isDeploymentActionNeeded (pragueAt 7 59) nginxAnnotations 2)"
    by (auto simp: isDeploymentActionNeeded_def nginx_gate_annotations now_before_start
        Contains_weekdays Action_defs split: prod.splits)
  show "fst (getDeploymentActionNeeded (pragueAt 8 0) nginxAnnotations 2) = NoAction"
    by (simp add: getDeploymentActionNeeded_Inr [OF start] deploymentWindowAction_def clock_order)
qed

lemma now_monday:
  "ConvertTimeNowToLocal (pragueMondayAt 20 0) ''Europe/Prague'' = Inr (atClock 20 0, ''Mon'')"
  by (simp add: ConvertTimeNowToLocal_eq LoadLocation_winter pragueMondayAt_def
      NowIn_def Hour_def Minute_def Weekday_def WeekdayString_def)

lemma monday_gate_annotations:
  "mondayAnnotations annotationDays = Some ''Monday''"
  "mondayAnnotations annotationTimeZone = Some ''Europe/Prague''"
  "mondayAnnotations annotationDownTimeReplicas = Some ''1''"
  "getOrEmpty mondayAnnotations annotationDownTimeReplicas = ''1''"
  "getOrEmpty mondayAnnotations annotationTimeZone = ''Europe/Prague''"
  by (simp_all add: mondayAnnotations_def getOrEmpty_def)

lemma monday_times:
  "normalizedTimes (pragueMondayAt 20 0) mondayAnnotations =
     Inr (atClock 20 0, atClock 8 0, atClock 16 0)"
  by (rule normalizedTimes_day [OF _ _ _ _ now_monday];
      simp add: mondayAnnotations_def pragueMondayAt_def)

lemma monday_decisions:
  "getDeploymentActionNeeded (pragueMondayAt 20 0) mondayAnnotations 2 =
     (Downscale, [Printed (atClock 20 0) (atClock 8 0) (atClock 16 0) ''Europe/Prague''])"
  "getCronjobActionNeeded (pragueMondayAt 20 0) mondayAnnotations False =
     (Suspend, [Printed (atClock 20 0) (atClock 8 0) (atClock 16 0) ''Europe/Prague''])"
  by (simp_all add: getDeploymentActionNeeded_Inr [OF monday_times]
      getCronjobActionNeeded_Inr [OF monday_times] deploymentWindowAction_def
      cronjobWindowAction_def clock_order monday_gate_annotations ParseInt32_small int32_def)

section \<open>The properties of the specification\<close>

text \<open>
  C1. At the minute of the start time the deciders take the resource to be neither down
  nor up. On the README's schedule (08:00 to 16:00), on a Wednesday at 08:00 in Prague, a
  suspended cron job is not resumed and a deployment scaled down to one replica is not
  scaled up, although a running cron job is not suspended either; one minute later both
  are brought up. At the stop time, 16:00, the resource is still up (a suspended cron
  job is resumed), and one minute later it is down (a running cron job is suspended).
\<close>

theorem start_instant_takes_no_action:
  "fst (getCronjobActionNeeded (pragueAt 8 0) nginxAnnotations True) = NoAction \<and>
   fst (getCronjobActionNeeded (pragueAt 8 0) nginxAnnotations False) = NoAction \<and>
   fst (getCronjobActionNeeded (pragueAt 8 1) nginxAnnotations True) = Resume \<and>
   fst (getDeploymentActionNeeded (pragueAt 8 0)
          (nginxAnnotations(annotationOriginalReplicas \<mapsto> ''2'')) 1) = NoAction \<and>
   fst (getDeploymentActionNeeded (pragueAt 8 1)
          (nginxAnnotations(annotationOriginalReplicas \<mapsto> ''2'')) 1) = Upscale \<and>
   fst (getCronjobActionNeeded (pragueAt 16 0) nginxAnnotations True) = Resume \<and>
   fst (getCronjobActionNeeded (pragueAt 16 1) nginxAnnotations False) = Suspend"
  by (simp add: getCronjobActionNeeded_Inr [OF nginx_times(1) [OF now_winter(3)]]
      getCronjobActionNeeded_Inr [OF nginx_times(1) [OF now_winter(4)]]
      getCronjobActionNeeded_Inr [OF nginx_times(1) [OF now_winter(5)]]
      getCronjobActionNeeded_Inr [OF nginx_times(1) [OF now_winter(6)]]
      getDeploymentActionNeeded_Inr [OF nginx_times(2) [OF now_winter(3)]]
      getDeploymentActionNeeded_Inr [OF nginx_times(2) [OF now_winter(4)]]
      cronjobWindowAction_def deploymentWindowAction_def clock_order nginx_replica_annotations
      ParseInt32_small int32_def Action_defs)

text \<open>
  C2. A deployment is scaled down exactly when the current time of day is after the stop
  time or before the start time (\<^verbatim>\<open>stop.Before(now) || start.After(now)\<close>) and the
  replicas differ from the parsed \<^verbatim>\<open>d8r/downTimeReplicas\<close>; it is scaled up exactly when
  the time is after the start time and not after the stop time
  (\<^verbatim>\<open>start.Before(now) && !stop.Before(now)\<close>) and the replicas differ from the parsed
  \<^verbatim>\<open>d8r/originalReplicas\<close>. A cron job is suspended exactly in the first case when it
  runs, and resumed exactly in the second when it is suspended. So the actions that
  bring a resource down are reached only under the first condition and those that bring
  it up only under the second.
\<close>

theorem actions_only_in_their_window:
  "(fst (getDeploymentActionNeeded e annotations replicas) = Downscale \<longleftrightarrow>
      (\<exists>timeNow timeStartTime timeStopTime d.
         normalizedTimes e annotations = Inr (timeNow, timeStartTime, timeStopTime) \<and>
         (Before timeStopTime timeNow \<or> After timeStartTime timeNow) \<and>
         ParseInt32 (getOrEmpty annotations annotationDownTimeReplicas) = Inr d \<and>
         replicas \<noteq> int32 d)) \<and>
   (fst (getDeploymentActionNeeded e annotations replicas) = Upscale \<longleftrightarrow>
      (\<exists>timeNow timeStartTime timeStopTime d.
         normalizedTimes e annotations = Inr (timeNow, timeStartTime, timeStopTime) \<and>
         (Before timeStartTime timeNow \<and> \<not> Before timeStopTime timeNow) \<and>
         ParseInt32 (getOrEmpty annotations annotationOriginalReplicas) = Inr d \<and>
         replicas \<noteq> int32 d)) \<and>
   (fst (getCronjobActionNeeded e annotations suspend) = Suspend \<longleftrightarrow>
      (\<exists>timeNow timeStartTime timeStopTime.
         normalizedTimes e annotations = Inr (timeNow, timeStartTime, timeStopTime) \<and>
         (Before timeStopTime timeNow \<or> After timeStartTime timeNow) \<and> \<not> suspend)) \<and>
   (fst (getCronjobActionNeeded e annotations suspend) = Resume \<longleftrightarrow>
      (\<exists>timeNow timeStartTime timeStopTime.
         normalizedTimes e annotations = Inr (timeNow, timeStartTime, timeStopTime) \<and>
         (Before timeStartTime timeNow \<and> \<not> Before timeStopTime timeNow) \<and> suspend))"
proof (cases "normalizedTimes e annotations")
  case (Inl out)
  then show ?thesis
    by (simp add: getDeploymentActionNeeded_Inl getCronjobActionNeeded_Inl Action_defs)
next
  case (Inr times)
  then obtain timeNow timeStartTime timeStopTime
    where times: "normalizedTimes e annotations = Inr (timeNow, timeStartTime, timeStopTime)"
    by (cases times) auto
  show ?thesis
    by (simp add: times getDeploymentActionNeeded_Inr [OF times]
        getCronjobActionNeeded_Inr [OF times] deploymentWindowAction_Downscale_iff
        deploymentWindowAction_Upscale_iff cronjobWindowAction_Suspend_iff
        cronjobWindowAction_Resume_iff)
qed

theorem actions_only_in_their_window_witness:
  "fst (getDeploymentActionNeeded (pragueAt 20 0) nginxAnnotations 2) = Downscale \<and>
   fst (getDeploymentActionNeeded (pragueAt 9 0)
          (nginxAnnotations(annotationOriginalReplicas \<mapsto> ''2'')) 1) = Upscale \<and>
   fst (getCronjobActionNeeded (pragueAt 20 0) nginxAnnotations False) = Suspend \<and>
   fst (getCronjobActionNeeded (pragueAt 9 0) nginxAnnotations True) = Resume"
proof -
  note night = nginx_times [OF now_winter(1)] and day = nginx_times [OF now_winter(2)]
  have "\<exists>d. ParseInt32 (getOrEmpty nginxAnnotations annotationDownTimeReplicas) = Inr d \<and>
          (2 :: 32 word) \<noteq> int32 d"
    by (simp add: nginx_replica_annotations ParseInt32_small int32_def)
  moreover have "\<exists>d. ParseInt32 (getOrEmpty (nginxAnnotations(annotationOriginalReplicas \<mapsto> ''2''))
            annotationOriginalReplicas) = Inr d \<and> (1 :: 32 word) \<noteq> int32 d"
    by (simp add: nginx_replica_annotations ParseInt32_small int32_def)
  ultimately show ?thesis
    using actions_only_in_their_window [of "pragueAt 20 0" nginxAnnotations 2 False]
      actions_only_in_their_window [of "pragueAt 9 0"
        "nginxAnnotations(annotationOriginalReplicas \<mapsto> ''2'')" 1 True]
      actions_only_in_their_window [of "pragueAt 9 0" nginxAnnotations 1 True]
    by (simp add: night day clock_order)
qed

text \<open>
  C3. When the state of the resource is already the one the window asks for, the deciders
  return \<^verbatim>\<open>NoAction\<close>, and the checks \<^verbatim>\<open>isDeploymentActionNeeded\<close> and
  \<^verbatim>\<open>isCronjobActionNeeded\<close> answer false: in the downtime with the replicas equal to
  \<^verbatim>\<open>d8r/downTimeReplicas\<close> or the cron job suspended, in the uptime with the replicas
  equal to \<^verbatim>\<open>d8r/originalReplicas\<close> or the cron job not suspended.
\<close>

theorem no_action_when_state_matches:
  assumes "normalizedTimes e annotations = Inr (timeNow, timeStartTime, timeStopTime)"
  shows
    "((Before timeStopTime timeNow \<or> After timeStartTime timeNow) \<and>
      ParseInt32 (getOrEmpty annotations annotationDownTimeReplicas) = Inr d \<and>
      replicas = int32 d \<longrightarrow>
        fst (getDeploymentActionNeeded e annotations replicas) = NoAction \<and>
        \<not> fst (isDeploymentActionNeeded e annotations replicas)) \<and>
     ((Before timeStartTime timeNow \<and> \<not> Before timeStopTime timeNow) \<and>
      ParseInt32 (getOrEmpty annotations annotationOriginalReplicas) = Inr d \<and>
      replicas = int32 d \<longrightarrow>
        fst (getDeploymentActionNeeded e annotations replicas) = NoAction \<and>
        \<not> fst (isDeploymentActionNeeded e annotations replicas)) \<and>
     ((Before timeStopTime timeNow \<or> After timeStartTime timeNow) \<longrightarrow>
        fst (getCronjobActionNeeded e annotations True) = NoAction \<and>
        \<not> fst (isCronjobActionNeeded e annotations True)) \<and>
     ((Before timeStartTime timeNow \<and> \<not> Before timeStopTime timeNow) \<longrightarrow>
        fst (getCronjobActionNeeded e annotations False) = NoAction \<and>
        \<not> fst (isCronjobActionNeeded e annotations False))"
proof -
  have gateD: "fst (getDeploymentActionNeeded e annotations replicas) = NoAction \<Longrightarrow>
      \<not> fst (isDeploymentActionNeeded e annotations replicas)"
    by (auto simp: isDeploymentActionNeeded_def split: option.splits sum.splits prod.splits)
  have gateC: "\<And>suspend. fst (getCronjobActionNeeded e annotations suspend) = NoAction \<Longrightarrow>
      \<not> fst (isCronjobActionNeeded e annotations suspend)"
    by (auto simp: isCronjobActionNeeded_def split: option.splits sum.splits prod.splits)
  have down: "(Before timeStopTime timeNow \<or> After timeStartTime timeNow) \<and>
      ParseInt32 (getOrEmpty annotations annotationDownTimeReplicas) = Inr d \<and>
      replicas = int32 d \<Longrightarrow> fst (getDeploymentActionNeeded e annotations replicas) = NoAction"
    by (auto simp: getDeploymentActionNeeded_Inr [OF assms] deploymentWindowAction_def
        Before_def After_def)
  have up: "(Before timeStartTime timeNow \<and> \<not> Before timeStopTime timeNow) \<and>
      ParseInt32 (getOrEmpty annotations annotationOriginalReplicas) = Inr d \<and>
      replicas = int32 d \<Longrightarrow> fst (getDeploymentActionNeeded e annotations replicas) = NoAction"
    by (auto simp: getDeploymentActionNeeded_Inr [OF assms] deploymentWindowAction_def
        Before_def After_def)
  have downC: "Before timeStopTime timeNow \<or> After timeStartTime timeNow \<Longrightarrow>
      fst (getCronjobActionNeeded e annotations True) = NoAction"
    by (auto simp: getCronjobActionNeeded_Inr [OF assms] cronjobWindowAction_def
        Before_def After_def)
  have upC: "Before timeStartTime timeNow \<and> \<not> Before timeStopTime timeNow \<Longrightarrow>
      fst (getCronjobActionNeeded e annotations False) = NoAction"
    by (auto simp: getCronjobActionNeeded_Inr [OF assms] cronjobWindowAction_def
        Before_def After_def)
  from gateD gateC down up downC upC show ?thesis
    by blast
qed

theorem no_action_when_state_matches_witness:
  "normalizedTimes (pragueAt 20 0) nginxAnnotations = Inr (atClock 20 0, atClock 8 0, atClock 16 0) \<and>
   Before (atClock 16 0) (atClock 20 0) \<and>
   ParseInt32 (getOrEmpty nginxAnnotations annotationDownTimeReplicas) = Inr 1 \<and>
   fst (getDeploymentActionNeeded (pragueAt 20 0) nginxAnnotations (int32 1)) = NoAction \<and>
   \<not> fst (isDeploymentActionNeeded (pragueAt 20 0) nginxAnnotations (int32 1)) \<and>
   fst (getCronjobActionNeeded (pragueAt 20 0) nginxAnnotations True) = NoAction \<and>
   \<not> fst (isCronjobActionNeeded (pragueAt 20 0) nginxAnnotations True) \<and>
   normalizedTimes (pragueAt 9 0) (nginxAnnotations(annotationOriginalReplicas \<mapsto> ''2'')) =
     Inr (atClock 9 0, atClock 8 0, atClock 16 0) \<and>
   Before (atClock 8 0) (atClock 9 0) \<and> \<not> Before (atClock 16 0) (atClock 9 0) \<and>
   ParseInt32 (getOrEmpty (nginxAnnotations(annotationOriginalReplicas \<mapsto> ''2''))
     annotationOriginalReplicas) = Inr 2 \<and>
   fst (getDeploymentActionNeeded (pragueAt 9 0)
          (nginxAnnotations(annotationOriginalReplicas \<mapsto> ''2'')) (int32 2)) = NoAction \<and>
   \<not> fst (isDeploymentActionNeeded (pragueAt 9 0)
          (nginxAnnotations(annotationOriginalReplicas \<mapsto> ''2'')) (int32 2)) \<and>
   fst (getCronjobActionNeeded (pragueAt 9 0)
          (nginxAnnotations(annotationOriginalReplicas \<mapsto> ''2'')) False) = NoAction \<and>
   \<not> fst (isCronjobActionNeeded (pragueAt 9 0)
          (nginxAnnotations(annotationOriginalReplicas \<mapsto> ''2'')) False)"
proof -
  note night = nginx_times(1) [OF now_winter(1)] and day = nginx_times(2) [OF now_winter(2)]
  have facts: "Before (atClock 16 0) (atClock 20 0)"
    "Before (atClock 8 0) (atClock 9 0)" "\<not> Before (atClock 16 0) (atClock 9 0)"
    "ParseInt32 (getOrEmpty nginxAnnotations annotationDownTimeReplicas) = Inr 1"
    "ParseInt32 (getOrEmpty (nginxAnnotations(annotationOriginalReplicas \<mapsto> ''2''))
       annotationOriginalReplicas) = Inr 2"
    by (simp_all add: clock_order nginx_replica_annotations ParseInt32_small)
  show ?thesis
    using no_action_when_state_matches [OF night, where d = 1 and replicas = "int32 1"]
      no_action_when_state_matches [OF day, where d = 2 and replicas = "int32 2"] facts night day
    by simp
qed

text \<open>
  C4. The deciders are functions of the annotations, the observed state and the instant,
  so asking again gives the same answer. The check \<^verbatim>\<open>isDeploymentActionNeeded\<close> is true
  exactly when the resource passes the gates (the keys \<^verbatim>\<open>d8r/days\<close>, \<^verbatim>\<open>d8r/timeZone\<close>
  and \<^verbatim>\<open>d8r/downTimeReplicas\<close> are there, the time zone loads, today's abbreviation is
  in the days) and \<^verbatim>\<open>getDeploymentActionNeeded\<close> on the same input returns an action
  other than \<^verbatim>\<open>NoAction\<close>; likewise for cron jobs, without the replica key. With the
  clock at one instant for the check and for the decision, the driver hands an object to
  \<^verbatim>\<open>Update\<close> exactly when the check was true.
\<close>

theorem check_agrees_with_decision:
  "(fst (isDeploymentActionNeeded e annotations replicas) \<longleftrightarrow>
      (\<exists>days timeZone timeNow today.
         annotations annotationDays = Some days \<and> annotations annotationTimeZone = Some timeZone \<and>
         ConvertTimeNowToLocal e timeZone = Inr (timeNow, today) \<and> Contains days today \<and>
         annotations annotationDownTimeReplicas \<noteq> None) \<and>
      fst (getDeploymentActionNeeded e annotations replicas) \<noteq> NoAction) \<and>
   (fst (isCronjobActionNeeded e annotations suspend) \<longleftrightarrow>
      (\<exists>days timeZone timeNow today.
         annotations annotationDays = Some days \<and> annotations annotationTimeZone = Some timeZone \<and>
         ConvertTimeNowToLocal e timeZone = Inr (timeNow, today) \<and> Contains days today) \<and>
      fst (getCronjobActionNeeded e annotations suspend) \<noteq> NoAction) \<and>
   (fst (checkDeployment e e update deployment) \<noteq> None \<longleftrightarrow>
      fst (isDeploymentActionNeeded e (Annotations deployment) (SpecReplicas deployment))) \<and>
   (fst (checkCronjob e e update' cronjob) \<noteq> None \<longleftrightarrow>
      fst (isCronjobActionNeeded e (Annotations cronjob) (SpecSuspend cronjob)))"
proof -
  let ?a = "fst (getDeploymentActionNeeded e (Annotations deployment) (SpecReplicas deployment))"
  let ?c = "fst (getCronjobActionNeeded e (Annotations cronjob) (SpecSuspend cronjob))"
  have deployment: "fst (checkDeployment e e update deployment) \<noteq> None"
    if "fst (isDeploymentActionNeeded e (Annotations deployment) (SpecReplicas deployment))"
  proof -
    from that have "?a \<noteq> NoAction"
      by (rule check_decision(1))
    with decider_range(1) [of e "Annotations deployment" "SpecReplicas deployment"]
    have "?a = Downscale \<or> ?a = Upscale"
      by auto
    then show ?thesis
    proof
      assume "?a = Downscale"
      with that decider_parsed(1) [of e "Annotations deployment" "SpecReplicas deployment"]
      show ?thesis
        by (auto simp: checkDeployment_written)
    next
      assume "?a = Upscale"
      with that decider_parsed(2) [of e "Annotations deployment" "SpecReplicas deployment"]
      show ?thesis
        by (auto simp: checkDeployment_written Action_defs)
    qed
  qed
  have cronjob: "fst (checkCronjob e e update' cronjob) \<noteq> None"
    if "fst (isCronjobActionNeeded e (Annotations cronjob) (SpecSuspend cronjob))"
  proof -
    from that have "?c \<noteq> NoAction"
      by (rule check_decision(2))
    with decider_range(2) [of e "Annotations cronjob" "SpecSuspend cronjob"]
    have "?c = Suspend \<or> ?c = Resume"
      by auto
    with that show ?thesis
      by (auto simp: checkCronjob_written)
  qed
  have "fst (checkDeployment e e update deployment) \<noteq> None \<longleftrightarrow>
      fst (isDeploymentActionNeeded e (Annotations deployment) (SpecReplicas deployment))"
    using deployment by (auto simp: checkDeployment_written)
  moreover have "fst (checkCronjob e e update' cronjob) \<noteq> None \<longleftrightarrow>
      fst (isCronjobActionNeeded e (Annotations cronjob) (SpecSuspend cronjob))"
    using cronjob by (auto simp: checkCronjob_written)
  moreover have "fst (isDeploymentActionNeeded e annotations replicas) \<longleftrightarrow>
      (\<exists>days timeZone timeNow today.
         annotations annotationDays = Some days \<and> annotations annotationTimeZone = Some timeZone \<and>
         ConvertTimeNowToLocal e timeZone = Inr (timeNow, today) \<and> Contains days today \<and>
         annotations annotationDownTimeReplicas \<noteq> None) \<and>
      fst (getDeploymentActionNeeded e annotations replicas) \<noteq> NoAction"
    by (auto simp: isDeploymentActionNeeded_def split: option.splits sum.splits prod.splits)
  moreover have "fst (isCronjobActionNeeded e annotations suspend) \<longleftrightarrow>
      (\<exists>days timeZone timeNow today.
         annotations annotationDays = Some days \<and> annotations annotationTimeZone = Some timeZone \<and>
         ConvertTimeNowToLocal e timeZone = Inr (timeNow, today) \<and> Contains days today) \<and>
      fst (getCronjobActionNeeded e annotations suspend) \<noteq> NoAction"
    by (auto simp: isCronjobActionNeeded_def split: option.splits sum.splits prod.splits)
  ultimately show ?thesis
    by blast
qed

theorem check_agrees_with_decision_witness:
  "fst (getDeploymentActionNeeded (pragueAt 20 0) nginxAnnotations 2) = Downscale \<and>
   fst (isDeploymentActionNeeded (pragueAt 20 0) nginxAnnotations 2) \<and>
   fst (checkDeployment (pragueAt 20 0) (pragueAt 20 0) noUpdateError nginx) \<noteq> None \<and>
   fst (getCronjobActionNeeded (pragueAt 20 0) nginxAnnotations False) = Suspend \<and>
   fst (isCronjobActionNeeded (pragueAt 20 0) nginxAnnotations False) \<and>
   fst (checkCronjob (pragueAt 20 0) (pragueAt 20 0) noUpdateError backup) \<noteq> None"
proof -
  note night = nginx_times(1) [OF now_winter(1)]
  have decisions: "fst (getDeploymentActionNeeded (pragueAt 20 0) nginxAnnotations 2) = Downscale"
    "fst (getCronjobActionNeeded (pragueAt 20 0) nginxAnnotations False) = Suspend"
    by (simp_all add: getDeploymentActionNeeded_Inr [OF night] getCronjobActionNeeded_Inr [OF night]
        deploymentWindowAction_def cronjobWindowAction_def clock_order nginx_replica_annotations
        ParseInt32_small int32_def)
  have fields: "Annotations nginx = nginxAnnotations" "SpecReplicas nginx = 2"
    "Annotations backup = nginxAnnotations" "SpecSuspend backup = False"
    by (simp_all add: nginx_def backup_def)
  show ?thesis
    using check_agrees_with_decision [of "pragueAt 20 0" nginxAnnotations 2 False noUpdateError
        nginx noUpdateError backup]
    by (simp add: decisions fields nginx_gate_annotations now_winter(1) Contains_weekdays
        Action_defs)
qed

text \<open>
  C5, as stated (a resource with one of the four keys missing is skipped without any
  error being logged), does not hold: with \<^verbatim>\<open>d8r/startTime\<close> missing and a time zone
  that cannot be loaded, both checks answer false but log the error of loading the time
  zone, since they load it before the deciders look for the start and the stop time.
\<close>

theorem missing_start_time_logs_zone_error:
  "marsAnnotations annotationStartTime = None \<and>
   isDeploymentActionNeeded (pragueAt 20 0) marsAnnotations 2 =
     (False, [LogError (UnknownTimeZone ''Mars/Olympus'')]) \<and>
   isCronjobActionNeeded (pragueAt 20 0) marsAnnotations False =
     (False, [LogError (UnknownTimeZone ''Mars/Olympus'')])"
proof -
  have missing: "marsAnnotations annotationStartTime = None"
    by (simp add: marsAnnotations_def)
  have "timeZoneErrors (pragueAt 20 0) marsAnnotations = [LogError (UnknownTimeZone ''Mars/Olympus'')]"
    by (simp add: timeZoneErrors_def marsAnnotations_def LoadLocation_def zoneinfo_pragueAt
        winterZones_def)
  with missing show ?thesis
    by (simp add: check_missing)
qed

text \<open>
  C5, amended. If one of the keys \<^verbatim>\<open>d8r/days\<close>, \<^verbatim>\<open>d8r/startTime\<close>, \<^verbatim>\<open>d8r/stopTime\<close>,
  \<^verbatim>\<open>d8r/timeZone\<close> is missing, the checks answer false and the drivers hand nothing to
  \<^verbatim>\<open>Update\<close>. Nothing is logged when \<^verbatim>\<open>d8r/days\<close> or \<^verbatim>\<open>d8r/timeZone\<close> is missing or
  the time zone loads; when both keys are there and the time zone does not load, the
  error of loading it is logged, and nothing else.
\<close>

theorem missing_key_is_skipped:
  assumes "annotations annotationDays = None \<or> annotations annotationStartTime = None \<or>
           annotations annotationStopTime = None \<or> annotations annotationTimeZone = None"
  shows
    "isDeploymentActionNeeded e annotations replicas = (False, timeZoneErrors e annotations) \<and>
     isCronjobActionNeeded e annotations suspend = (False, timeZoneErrors e annotations) \<and>
     (Annotations deployment = annotations \<longrightarrow>
        checkDeployment e eAct update deployment = (None, timeZoneErrors e annotations)) \<and>
     (Annotations cronjob = annotations \<longrightarrow>
        checkCronjob e eAct update' cronjob = (None, timeZoneErrors e annotations)) \<and>
     (annotations annotationDays = None \<or> annotations annotationTimeZone = None \<or>
      (\<exists>loc. LoadLocation e (getOrEmpty annotations annotationTimeZone) = Inr loc) \<longrightarrow>
        timeZoneErrors e annotations = []) \<and>
     (annotations annotationDays \<noteq> None \<and> annotations annotationTimeZone \<noteq> None \<and>
      LoadLocation e (getOrEmpty annotations annotationTimeZone) = Inl err \<longrightarrow>
        timeZoneErrors e annotations = [LogError err])"
proof -
  note checks = check_missing [OF assms, of e]
  have "checkDeployment e eAct update deployment = (None, timeZoneErrors e annotations)"
    if "Annotations deployment = annotations"
    using check_false(1) [of e deployment eAct update] checks(1) [of "SpecReplicas deployment"] that
    by simp
  moreover have "checkCronjob e eAct update' cronjob = (None, timeZoneErrors e annotations)"
    if "Annotations cronjob = annotations"
    using check_false(2) [of e cronjob eAct update'] checks(2) [of "SpecSuspend cronjob"] that
    by simp
  moreover have "timeZoneErrors e annotations = []"
    if "annotations annotationDays = None \<or> annotations annotationTimeZone = None \<or>
      (\<exists>loc. LoadLocation e (getOrEmpty annotations annotationTimeZone) = Inr loc)"
    using that by (auto simp: timeZoneErrors_def getOrEmpty_def split: option.splits)
  moreover have "timeZoneErrors e annotations = [LogError err]"
    if "annotations annotationDays \<noteq> None \<and> annotations annotationTimeZone \<noteq> None \<and>
      LoadLocation e (getOrEmpty annotations annotationTimeZone) = Inl err"
    using that by (auto simp: timeZoneErrors_def getOrEmpty_def split: option.splits)
  ultimately show ?thesis
    using checks by blast
qed

theorem missing_key_is_skipped_witness:
  "(nginxAnnotations(annotationStopTime := None)) annotationStopTime = None \<and>
   isDeploymentActionNeeded (pragueAt 20 0) (nginxAnnotations(annotationStopTime := None)) 2 =
     (False, []) \<and>
   isCronjobActionNeeded (pragueAt 20 0) (nginxAnnotations(annotationStopTime := None)) False =
     (False, []) \<and>
   checkDeployment (pragueAt 20 0) (pragueAt 20 0) noUpdateError
     (nginx\<lparr>Annotations := nginxAnnotations(annotationStopTime := None)\<rparr>) = (None, []) \<and>
   checkCronjob (pragueAt 20 0) (pragueAt 20 0) noUpdateError
     (backup\<lparr>Annotations := nginxAnnotations(annotationStopTime := None)\<rparr>) = (None, []) \<and>
   marsAnnotations annotationStartTime = None \<and>
   checkDeployment (pragueAt 20 0) (pragueAt 20 0) noUpdateError
     (nginx\<lparr>Annotations := marsAnnotations\<rparr>) =
     (None, [LogError (UnknownTimeZone ''Mars/Olympus'')])"
proof -
  let ?a = "nginxAnnotations(annotationStopTime := None)"
  have loads: "LoadLocation (pragueAt 20 0) (getOrEmpty ?a annotationTimeZone) = Inr (''CET'', 3600)"
    by (simp add: getOrEmpty_def nginxAnnotations_def LoadLocation_winter zoneinfo_pragueAt)
  have fails: "LoadLocation (pragueAt 20 0) (getOrEmpty marsAnnotations annotationTimeZone) =
      Inl (UnknownTimeZone ''Mars/Olympus'')"
    by (simp add: getOrEmpty_def marsAnnotations_def LoadLocation_def zoneinfo_pragueAt
        winterZones_def)
  have keys: "marsAnnotations annotationDays \<noteq> None" "marsAnnotations annotationTimeZone \<noteq> None"
    "marsAnnotations annotationStartTime = None" "?a annotationStopTime = None"
    by (simp_all add: marsAnnotations_def)
  show ?thesis
    using missing_key_is_skipped [of ?a "pragueAt 20 0" 2 False
        "nginx\<lparr>Annotations := ?a\<rparr>" "pragueAt 20 0" noUpdateError
        "backup\<lparr>Annotations := ?a\<rparr>" noUpdateError]
      missing_key_is_skipped [of marsAnnotations "pragueAt 20 0" 2 False
        "nginx\<lparr>Annotations := marsAnnotations\<rparr>" "pragueAt 20 0" noUpdateError
        "backup\<lparr>Annotations := marsAnnotations\<rparr>" noUpdateError
        "UnknownTimeZone ''Mars/Olympus''"]
      loads fails keys
    by auto
qed

text \<open>
  C6. Today's abbreviation is the first three bytes of the name of the weekday of the
  current time in the time zone of the resource, one of \<^verbatim>\<open>Sun\<close> to \<^verbatim>\<open>Sat\<close>. The day
  gate asks whether it occurs in the text of \<^verbatim>\<open>d8r/days\<close> as a substring, so the text
  \<^verbatim>\<open>Monday\<close> lets \<^verbatim>\<open>Mon\<close> pass. When it does not occur, the checks answer false and the
  drivers do nothing with the resource, wherever the clock stands in the window and
  whatever the state of the resource. When it does occur the gate is open: the check of
  a cron job answers and prints what its decider does, and so does the check of a
  deployment that has \<^verbatim>\<open>d8r/downTimeReplicas\<close>. On a Monday evening the checks of a
  resource whose days are \<^verbatim>\<open>Monday\<close> answer true.
\<close>

theorem day_gate:
  "(ConvertTimeNowToLocal e timeZone = Inr (timeNow, today) \<longrightarrow>
      (\<exists>loc. LoadLocation e timeZone = Inr loc \<and>
         today = take 3 (WeekdayString (Weekday (NowIn e loc))) \<and>
         today \<in> {''Sun'', ''Mon'', ''Tue'', ''Wed'', ''Thu'', ''Fri'', ''Sat''})) \<and>
   (Contains days today \<longleftrightarrow> (\<exists>before after. days = before @ today @ after)) \<and>
   Contains ''Monday'' ''Mon'' \<and>
   (annotations annotationDays = Some days \<and> annotations annotationTimeZone = Some timeZone \<and>
    ConvertTimeNowToLocal e timeZone = Inr (timeNow, today) \<and> \<not> Contains days today \<longrightarrow>
      isDeploymentActionNeeded e annotations replicas = (False, []) \<and>
      isCronjobActionNeeded e annotations suspend = (False, []) \<and>
      (Annotations deployment = annotations \<longrightarrow>
         checkDeployment e eAct update deployment = (None, [])) \<and>
      (Annotations cronjob = annotations \<longrightarrow>
         checkCronjob e eAct update' cronjob = (None, []))) \<and>
   (annotations annotationDays = Some days \<and> annotations annotationTimeZone = Some timeZone \<and>
    ConvertTimeNowToLocal e timeZone = Inr (timeNow, today) \<and> Contains days today \<longrightarrow>
      isCronjobActionNeeded e annotations suspend =
        (fst (getCronjobActionNeeded e annotations suspend) \<noteq> NoAction,
         snd (getCronjobActionNeeded e annotations suspend)) \<and>
      (annotations annotationDownTimeReplicas \<noteq> None \<longrightarrow>
         isDeploymentActionNeeded e annotations replicas =
           (fst (getDeploymentActionNeeded e annotations replicas) \<noteq> NoAction,
            snd (getDeploymentActionNeeded e annotations replicas)))) \<and>
   isDeploymentActionNeeded (pragueMondayAt 20 0) mondayAnnotations 2 =
     (True, [Printed (atClock 20 0) (atClock 8 0) (atClock 16 0) ''Europe/Prague'']) \<and>
   isCronjobActionNeeded (pragueMondayAt 20 0) mondayAnnotations False =
     (True, [Printed (atClock 20 0) (atClock 8 0) (atClock 16 0) ''Europe/Prague''])"
proof -
  have today: "\<exists>loc. LoadLocation e timeZone = Inr loc \<and>
         today = take 3 (WeekdayString (Weekday (NowIn e loc))) \<and>
         today \<in> {''Sun'', ''Mon'', ''Tue'', ''Wed'', ''Thu'', ''Fri'', ''Sat''}"
    if "ConvertTimeNowToLocal e timeZone = Inr (timeNow, today)"
    using that weekday_abbreviation
    by (auto simp: ConvertTimeNowToLocal_eq split: sum.splits)
  have closed: "isDeploymentActionNeeded e annotations replicas = (False, []) \<and>
      isCronjobActionNeeded e annotations suspend = (False, [])"
    if "annotations annotationDays = Some days" "annotations annotationTimeZone = Some timeZone"
      "ConvertTimeNowToLocal e timeZone = Inr (timeNow, today)" "\<not> Contains days today"
    for replicas suspend
    using that by (simp add: isDeploymentActionNeeded_def isCronjobActionNeeded_def)
  have deployment: "checkDeployment e eAct update deployment = (None, [])"
    if "annotations annotationDays = Some days" "annotations annotationTimeZone = Some timeZone"
      "ConvertTimeNowToLocal e timeZone = Inr (timeNow, today)" "\<not> Contains days today"
      "Annotations deployment = annotations"
    using closed [OF that(1-4), of "SpecReplicas deployment"] that(5)
      check_false(1) [of e deployment eAct update]
    by simp
  have cronjob: "checkCronjob e eAct update' cronjob = (None, [])"
    if "annotations annotationDays = Some days" "annotations annotationTimeZone = Some timeZone"
      "ConvertTimeNowToLocal e timeZone = Inr (timeNow, today)" "\<not> Contains days today"
      "Annotations cronjob = annotations"
    using closed [OF that(1-4), of _ "SpecSuspend cronjob"] that(5)
      check_false(2) [of e cronjob eAct update']
    by simp
  have open_cronjob: "isCronjobActionNeeded e annotations suspend =
        (fst (getCronjobActionNeeded e annotations suspend) \<noteq> NoAction,
         snd (getCronjobActionNeeded e annotations suspend))"
    if "annotations annotationDays = Some days" "annotations annotationTimeZone = Some timeZone"
      "ConvertTimeNowToLocal e timeZone = Inr (timeNow, today)" "Contains days today"
    using that by (simp add: isCronjobActionNeeded_def split: prod.splits)
  have open_deployment: "isDeploymentActionNeeded e annotations replicas =
           (fst (getDeploymentActionNeeded e annotations replicas) \<noteq> NoAction,
            snd (getDeploymentActionNeeded e annotations replicas))"
    if "annotations annotationDays = Some days" "annotations annotationTimeZone = Some timeZone"
      "ConvertTimeNowToLocal e timeZone = Inr (timeNow, today)" "Contains days today"
      "annotations annotationDownTimeReplicas \<noteq> None"
    using that by (auto simp: isDeploymentActionNeeded_def split: prod.splits)
  have monday: "Contains ''Monday'' ''Mon''"
    by simp
  have monday_checks:
    "isDeploymentActionNeeded (pragueMondayAt 20 0) mondayAnnotations 2 =
       (True, [Printed (atClock 20 0) (atClock 8 0) (atClock 16 0) ''Europe/Prague''])"
    "isCronjobActionNeeded (pragueMondayAt 20 0) mondayAnnotations False =
       (True, [Printed (atClock 20 0) (atClock 8 0) (atClock 16 0) ''Europe/Prague''])"
    by (simp_all add: isDeploymentActionNeeded_def isCronjobActionNeeded_def
        monday_gate_annotations now_monday monday_decisions Action_defs)
  from today closed deployment cronjob monday Contains_iff [of days today]
    open_cronjob open_deployment monday_checks show ?thesis
    by blast
qed

theorem day_gate_witness:
  "ConvertTimeNowToLocal (pragueSaturdayAt 20 0) ''Europe/Prague'' = Inr (atClock 20 0, ''Sat'') \<and>
   LoadLocation (pragueSaturdayAt 20 0) ''Europe/Prague'' = Inr (''CET'', 3600) \<and>
   take 3 (WeekdayString (Weekday (NowIn (pragueSaturdayAt 20 0) (''CET'', 3600)))) = ''Sat'' \<and>
   \<not> Contains ''Mon,Tue,Wed,Thu,Fri'' ''Sat'' \<and>
   isDeploymentActionNeeded (pragueSaturdayAt 20 0) nginxAnnotations 2 = (False, []) \<and>
   isCronjobActionNeeded (pragueSaturdayAt 20 0) nginxAnnotations False = (False, []) \<and>
   checkDeployment (pragueSaturdayAt 20 0) (pragueSaturdayAt 20 0) noUpdateError nginx =
     (None, []) \<and>
   checkCronjob (pragueSaturdayAt 20 0) (pragueSaturdayAt 20 0) noUpdateError backup = (None, []) \<and>
   ConvertTimeNowToLocal (pragueMondayAt 20 0) ''Europe/Prague'' = Inr (atClock 20 0, ''Mon'') \<and>
   mondayAnnotations annotationDays = Some ''Monday'' \<and>
   mondayAnnotations annotationTimeZone = Some ''Europe/Prague'' \<and>
   mondayAnnotations annotationDownTimeReplicas = Some ''1'' \<and>
   Contains ''Monday'' ''Mon'' \<and>
   getDeploymentActionNeeded (pragueMondayAt 20 0) mondayAnnotations 2 =
     (Downscale, [Printed (atClock 20 0) (atClock 8 0) (atClock 16 0) ''Europe/Prague'']) \<and>
   getCronjobActionNeeded (pragueMondayAt 20 0) mondayAnnotations False =
     (Suspend, [Printed (atClock 20 0) (atClock 8 0) (atClock 16 0) ''Europe/Prague'']) \<and>
   isDeploymentActionNeeded (pragueMondayAt 20 0) mondayAnnotations 2 =
     (True, [Printed (atClock 20 0) (atClock 8 0) (atClock 16 0) ''Europe/Prague'']) \<and>
   isCronjobActionNeeded (pragueMondayAt 20 0) mondayAnnotations False =
     (True, [Printed (atClock 20 0) (atClock 8 0) (atClock 16 0) ''Europe/Prague''])"
proof -
  have fields: "Annotations nginx = nginxAnnotations" "Annotations backup = nginxAnnotations"
    by (simp_all add: nginx_def backup_def)
  have base: "LoadLocation (pragueSaturdayAt 20 0) ''Europe/Prague'' = Inr (''CET'', 3600)"
    "take 3 (WeekdayString (Weekday (NowIn (pragueSaturdayAt 20 0) (''CET'', 3600)))) = ''Sat''"
    "\<not> Contains ''Mon,Tue,Wed,Thu,Fri'' ''Sat''"
    by (simp_all add: LoadLocation_winter zoneinfo_pragueAt pragueSaturdayAt_def NowIn_def
        Weekday_def WeekdayString_def)
  have saturday:
    "isDeploymentActionNeeded (pragueSaturdayAt 20 0) nginxAnnotations 2 = (False, []) \<and>
    isCronjobActionNeeded (pragueSaturdayAt 20 0) nginxAnnotations False = (False, []) \<and>
    checkDeployment (pragueSaturdayAt 20 0) (pragueSaturdayAt 20 0) noUpdateError nginx =
      (None, []) \<and>
    checkCronjob (pragueSaturdayAt 20 0) (pragueSaturdayAt 20 0) noUpdateError backup = (None, [])"
    using day_gate [of "pragueSaturdayAt 20 0" "''Europe/Prague''" "atClock 20 0" "''Sat''"
        "''Mon,Tue,Wed,Thu,Fri''" nginxAnnotations 2 False nginx "pragueSaturdayAt 20 0"
        noUpdateError backup noUpdateError] base(3)
    by (simp only: now_winter(8) nginx_gate_annotations fields simp_thms)
  have contained: "Contains ''Monday'' ''Mon''"
    by simp
  have actions: "Downscale \<noteq> NoAction" "Suspend \<noteq> NoAction"
    by (simp_all add: Action_defs)
  have monday:
    "isCronjobActionNeeded (pragueMondayAt 20 0) mondayAnnotations False =
       (True, [Printed (atClock 20 0) (atClock 8 0) (atClock 16 0) ''Europe/Prague'']) \<and>
     isDeploymentActionNeeded (pragueMondayAt 20 0) mondayAnnotations 2 =
       (True, [Printed (atClock 20 0) (atClock 8 0) (atClock 16 0) ''Europe/Prague''])"
    using day_gate [of "pragueMondayAt 20 0" "''Europe/Prague''" "atClock 20 0" "''Mon''"
        "''Monday''" mondayAnnotations 2 False nginx "pragueMondayAt 20 0"
        noUpdateError backup noUpdateError] contained
    by (simp only: now_monday monday_gate_annotations monday_decisions actions
        fst_conv snd_conv option.simps simp_thms)
  from base now_winter(8) saturday now_monday monday_gate_annotations(1-3) contained
    monday_decisions monday show ?thesis
    by simp
qed

text \<open>
  C7. When the clock time of \<^verbatim>\<open>d8r/startTime\<close> is later than that of \<^verbatim>\<open>d8r/stopTime\<close>
  (a window over midnight), no time of day is in the uptime: the start time is after
  the stop time, the uptime test fails at every instant, and the deployment decider
  returns \<^verbatim>\<open>NoAction\<close> or \<^verbatim>\<open>Downscale\<close>, the cron job decider \<^verbatim>\<open>NoAction\<close> or
  \<^verbatim>\<open>Suspend\<close>, whatever the clock, the time zone and the state of the resource.
\<close>

theorem overnight_window_never_up:
  assumes "annotations annotationStartTime = Some startTime"
    and "annotations annotationStopTime = Some stopTime"
    and "clockOfText startTime = Some (hs, ms)"
    and "clockOfText stopTime = Some (ht, mt)"
    and "hs * 60 + ms > ht * 60 + mt"
  shows
    "(fst (getDeploymentActionNeeded e annotations replicas) = NoAction \<or>
      fst (getDeploymentActionNeeded e annotations replicas) = Downscale) \<and>
     (fst (getCronjobActionNeeded e annotations suspend) = NoAction \<or>
      fst (getCronjobActionNeeded e annotations suspend) = Suspend) \<and>
     (normalizedTimes e annotations = Inr (timeNow, timeStartTime, timeStopTime) \<longrightarrow>
        After timeStartTime timeStopTime \<and>
        \<not> (Before timeStartTime timeNow \<and> \<not> Before timeStopTime timeNow))"
proof -
  have late: "After timeStartTime timeStopTime"
    if "normalizedTimes e annotations = Inr (timeNow, timeStartTime, timeStopTime)"
    for timeNow timeStartTime timeStopTime
    using normalizedTimes_clocks [OF that] assms by (auto simp: clock_order)
  have never: "\<not> (Before timeStartTime timeNow \<and> \<not> Before timeStopTime timeNow)"
    if "normalizedTimes e annotations = Inr (timeNow, timeStartTime, timeStopTime)"
    for timeNow timeStartTime timeStopTime
    using late [OF that] by (auto simp: Before_def After_def)
  have "fst (getDeploymentActionNeeded e annotations replicas) \<noteq> Upscale"
  proof (cases "normalizedTimes e annotations")
    case (Inl out)
    then show ?thesis
      by (simp add: getDeploymentActionNeeded_Inl Action_defs)
  next
    case (Inr times)
    then obtain timeNow timeStartTime timeStopTime
      where times: "normalizedTimes e annotations = Inr (timeNow, timeStartTime, timeStopTime)"
      by (cases times) auto
    from never [OF times] show ?thesis
      by (simp add: getDeploymentActionNeeded_Inr [OF times] deploymentWindowAction_Upscale_iff)
  qed
  moreover have "fst (getCronjobActionNeeded e annotations suspend) \<noteq> Resume"
  proof (cases "normalizedTimes e annotations")
    case (Inl out)
    then show ?thesis
      by (simp add: getCronjobActionNeeded_Inl Action_defs)
  next
    case (Inr times)
    then obtain timeNow timeStartTime timeStopTime
      where times: "normalizedTimes e annotations = Inr (timeNow, timeStartTime, timeStopTime)"
      by (cases times) auto
    from never [OF times] show ?thesis
      by (simp add: getCronjobActionNeeded_Inr [OF times] cronjobWindowAction_Resume_iff)
  qed
  ultimately show ?thesis
    using decider_range(1) [of e annotations replicas] decider_range(2) [of e annotations suspend]
      late never
    by (auto simp: Action_defs)
qed

theorem overnight_window_never_up_witness:
  "nightAnnotations annotationStartTime = Some ''22:00'' \<and>
   nightAnnotations annotationStopTime = Some ''06:00'' \<and>
   clockOfText ''22:00'' = Some (22, 0) \<and> clockOfText ''06:00'' = Some (6, 0) \<and>
   normalizedTimes (pragueAt 23 0) nightAnnotations = Inr (atClock 23 0, atClock 22 0, atClock 6 0) \<and>
   After (atClock 22 0) (atClock 6 0) \<and>
   fst (getDeploymentActionNeeded (pragueAt 23 0) nightAnnotations 1) = NoAction \<and>
   fst (getDeploymentActionNeeded (pragueAt 23 0) nightAnnotations 2) = Downscale \<and>
   fst (getCronjobActionNeeded (pragueAt 23 0) nightAnnotations True) = NoAction \<and>
   fst (getCronjobActionNeeded (pragueAt 23 0) nightAnnotations False) = Suspend"
proof -
  note times = night_times [OF now_winter(7)]
  have keys: "nightAnnotations annotationStartTime = Some ''22:00''"
    "nightAnnotations annotationStopTime = Some ''06:00''"
    by (simp_all add: nightAnnotations_def)
  have later: "(22 :: nat) * 60 + 0 > 6 * 60 + 0"
    by simp
  note overnight = overnight_window_never_up [OF keys clockOfText_examples(1,2) later,
      of "pragueAt 23 0"]
  have "fst (getDeploymentActionNeeded (pragueAt 23 0) nightAnnotations 1) \<noteq> Downscale"
    and "fst (getDeploymentActionNeeded (pragueAt 23 0) nightAnnotations 2) \<noteq> NoAction"
    and "fst (getCronjobActionNeeded (pragueAt 23 0) nightAnnotations True) \<noteq> Suspend"
    and "fst (getCronjobActionNeeded (pragueAt 23 0) nightAnnotations False) \<noteq> NoAction"
    by (simp_all add: getDeploymentActionNeeded_Inr [OF times] getCronjobActionNeeded_Inr [OF times]
        deploymentWindowAction_def cronjobWindowAction_def clock_order night_replica_annotations
        ParseInt32_small int32_def Action_defs)
  then show ?thesis
    using overnight [of 1 True "atClock 23 0" "atClock 22 0" "atClock 6 0"]
      overnight [of 2 False "atClock 23 0" "atClock 22 0" "atClock 6 0"]
      times keys clockOfText_examples(1,2)
    by simp
qed

text \<open>
  C8. In the downtime a \<^verbatim>\<open>d8r/downTimeReplicas\<close>, and in the uptime a
  \<^verbatim>\<open>d8r/originalReplicas\<close>, that \<^verbatim>\<open>strconv.ParseInt\<close> refuses makes the deployment decider
  return \<^verbatim>\<open>NoAction\<close> after printing the times and logging the error; a missing key reads
  as the empty text, which is refused as bad syntax. The check then answers false and
  the driver hands nothing to \<^verbatim>\<open>Update\<close>.
\<close>

theorem unparsable_replicas_no_action:
  assumes "normalizedTimes e annotations = Inr (timeNow, timeStartTime, timeStopTime)"
    and "(Before timeStopTime timeNow \<or> After timeStartTime timeNow) \<and>
           ParseInt32 (getOrEmpty annotations annotationDownTimeReplicas) = Inl err \<or>
         (Before timeStartTime timeNow \<and> \<not> Before timeStopTime timeNow) \<and>
           ParseInt32 (getOrEmpty annotations annotationOriginalReplicas) = Inl err"
  shows
    "getDeploymentActionNeeded e annotations replicas =
       (NoAction,
        [Printed timeNow timeStartTime timeStopTime (getOrEmpty annotations annotationTimeZone),
         LogError err]) \<and>
     \<not> fst (isDeploymentActionNeeded e annotations replicas) \<and>
     (Annotations deployment = annotations \<and> SpecReplicas deployment = replicas \<longrightarrow>
        fst (checkDeployment e eAct update deployment) = None) \<and>
     ((\<exists>days timeZone now today.
         annotations annotationDays = Some days \<and> annotations annotationTimeZone = Some timeZone \<and>
         ConvertTimeNowToLocal e timeZone = Inr (now, today) \<and> Contains days today \<and>
         annotations annotationDownTimeReplicas \<noteq> None) \<longrightarrow>
        snd (isDeploymentActionNeeded e annotations replicas) =
          [Printed timeNow timeStartTime timeStopTime (getOrEmpty annotations annotationTimeZone),
           LogError err]) \<and>
     (annotations key = None \<longrightarrow>
        ParseInt32 (getOrEmpty annotations key) = Inl (NumError [] ErrSyntax))"
proof -
  from assms(2)
  have "deploymentWindowAction annotations replicas timeNow timeStartTime timeStopTime =
      (NoAction, [LogError err])"
    by (auto simp: deploymentWindowAction_def Before_def After_def)
  then have decided: "getDeploymentActionNeeded e annotations replicas =
       (NoAction,
        [Printed timeNow timeStartTime timeStopTime (getOrEmpty annotations annotationTimeZone),
         LogError err])"
    by (simp add: getDeploymentActionNeeded_Inr [OF assms(1)])
  then have refused: "\<not> fst (isDeploymentActionNeeded e annotations replicas)"
    using check_decision(1) [of e annotations replicas] by auto
  then have "fst (checkDeployment e eAct update deployment) = None"
    if "Annotations deployment = annotations \<and> SpecReplicas deployment = replicas"
    using that check_false(1) [of e deployment eAct update] by auto
  moreover have "snd (isDeploymentActionNeeded e annotations replicas) =
      [Printed timeNow timeStartTime timeStopTime (getOrEmpty annotations annotationTimeZone),
       LogError err]"
    if "\<exists>days timeZone now today.
         annotations annotationDays = Some days \<and> annotations annotationTimeZone = Some timeZone \<and>
         ConvertTimeNowToLocal e timeZone = Inr (now, today) \<and> Contains days today \<and>
         annotations annotationDownTimeReplicas \<noteq> None"
    using that decided by (auto simp: isDeploymentActionNeeded_def)
  ultimately show ?thesis
    using decided refused by (simp add: ParseInt32_absent)
qed

theorem unparsable_replicas_no_action_witness:
  "normalizedTimes (pragueAt 20 0) (nginxAnnotations(annotationDownTimeReplicas \<mapsto> ''abc'')) =
     Inr (atClock 20 0, atClock 8 0, atClock 16 0) \<and>
   Before (atClock 16 0) (atClock 20 0) \<and>
   ParseInt32 ''abc'' = Inl (NumError ''abc'' ErrSyntax) \<and>
   getDeploymentActionNeeded (pragueAt 20 0)
     (nginxAnnotations(annotationDownTimeReplicas \<mapsto> ''abc'')) 2 =
     (NoAction,
      [Printed (atClock 20 0) (atClock 8 0) (atClock 16 0) ''Europe/Prague'',
       LogError (NumError ''abc'' ErrSyntax)]) \<and>
   fst (checkDeployment (pragueAt 20 0) (pragueAt 20 0) noUpdateError
     (nginx\<lparr>Annotations := nginxAnnotations(annotationDownTimeReplicas \<mapsto> ''abc'')\<rparr>)) = None \<and>
   normalizedTimes (pragueAt 9 0) nginxAnnotations = Inr (atClock 9 0, atClock 8 0, atClock 16 0) \<and>
   nginxAnnotations annotationOriginalReplicas = None \<and>
   getDeploymentActionNeeded (pragueAt 9 0) nginxAnnotations 2 =
     (NoAction,
      [Printed (atClock 9 0) (atClock 8 0) (atClock 16 0) ''Europe/Prague'',
       LogError (NumError [] ErrSyntax)])"
proof -
  let ?a = "nginxAnnotations(annotationDownTimeReplicas \<mapsto> ''abc'')"
  have night: "normalizedTimes (pragueAt 20 0) ?a = Inr (atClock 20 0, atClock 8 0, atClock 16 0)"
    by (rule normalizedTimes_day [OF zoneinfo_pragueAt(1) _ _ _ now_winter(1)])
      (simp_all add: nginxAnnotations_def)
  note day = nginx_times(1) [OF now_winter(2)]
  have abc: "ParseInt32 ''abc'' = Inl (NumError ''abc'' ErrSyntax)"
    by (simp add: ParseInt32_def ParseUint32_def isDigit_def)
  have reads: "getOrEmpty ?a annotationDownTimeReplicas = ''abc''"
    "getOrEmpty ?a annotationTimeZone = ''Europe/Prague''"
    "getOrEmpty nginxAnnotations annotationTimeZone = ''Europe/Prague''"
    "nginxAnnotations annotationOriginalReplicas = None"
    by (simp_all add: getOrEmpty_def nginxAnnotations_def)
  have none: "ParseInt32 (getOrEmpty nginxAnnotations annotationOriginalReplicas) =
      Inl (NumError [] ErrSyntax)"
    by (simp add: nginx_replica_annotations ParseInt32_def)
  have fields: "Annotations (nginx\<lparr>Annotations := ?a\<rparr>) = ?a"
    "SpecReplicas (nginx\<lparr>Annotations := ?a\<rparr>) = 2"
    by (simp_all add: nginx_def)
  show ?thesis
    using unparsable_replicas_no_action [OF night, of "NumError ''abc'' ErrSyntax" 2
        "nginx\<lparr>Annotations := ?a\<rparr>" "pragueAt 20 0" noUpdateError annotationOriginalReplicas]
      unparsable_replicas_no_action [OF day, of "NumError [] ErrSyntax" 2
        nginx "pragueAt 9 0" noUpdateError annotationOriginalReplicas]
      night day abc none
    by (simp add: reads fields clock_order)
qed

text \<open>
  C9. When a round of the driver scales a deployment down and a later round, run on the
  object the first one handed to \<^verbatim>\<open>Update\<close>, scales it up, the replicas are again what
  they were before the first round: scaling down writes the replicas into
  \<^verbatim>\<open>d8r/originalReplicas\<close> and sets them to \<^verbatim>\<open>d8r/downTimeReplicas\<close>, and scaling up sets
  them to what \<^verbatim>\<open>d8r/originalReplicas\<close> holds.
\<close>

theorem downscale_then_upscale_restores:
  assumes "fst (checkDeployment e1 e2 update deployment) = Some down"
    and "fst (getDeploymentActionNeeded e2 (Annotations deployment) (SpecReplicas deployment))
           = Downscale"
    and "fst (checkDeployment e3 e4 update' down) = Some up"
    and "fst (getDeploymentActionNeeded e4 (Annotations down) (SpecReplicas down)) = Upscale"
  shows
    "SpecReplicas up = SpecReplicas deployment \<and>
     Annotations down annotationOriginalReplicas = Some (fmt_d (sint (SpecReplicas deployment))) \<and>
     (\<exists>n. ParseInt32 (getOrEmpty (Annotations deployment) annotationDownTimeReplicas) = Inr n \<and>
          SpecReplicas down = int32 n) \<and>
     ParseInt32 (getOrEmpty (Annotations down) annotationOriginalReplicas) =
       Inr (sint (SpecReplicas deployment)) \<and>
     Annotations up = Annotations down"
proof -
  from assms(1,2) obtain n
    where n: "ParseInt32 (getOrEmpty (Annotations deployment) annotationDownTimeReplicas) = Inr n"
      and down: "down = deployment
          \<lparr>Annotations := (Annotations deployment)
             (annotationOriginalReplicas \<mapsto> fmt_d (sint (SpecReplicas deployment))),
           SpecReplicas := int32 n\<rparr>"
    by (auto simp: checkDeployment_written split: if_splits sum.splits)
  from down have recorded:
    "getOrEmpty (Annotations down) annotationOriginalReplicas = fmt_d (sint (SpecReplicas deployment))"
    by (simp add: getOrEmpty_def)
  then have parsed: "ParseInt32 (getOrEmpty (Annotations down) annotationOriginalReplicas) =
      Inr (sint (SpecReplicas deployment))"
    by (simp add: ParseInt32_fmt_d_sint)
  with assms(3,4) have "up = down\<lparr>SpecReplicas := int32 (sint (SpecReplicas deployment))\<rparr>"
    by (auto simp: checkDeployment_written Action_defs split: if_splits)
  then have "SpecReplicas up = SpecReplicas deployment" and "Annotations up = Annotations down"
    by (simp_all add: int32_sint)
  with n down parsed show ?thesis
    by simp
qed

theorem downscale_then_upscale_restores_witness:
  "fst (checkDeployment (pragueAt 20 0) (pragueAt 20 0) noUpdateError nginx) =
     Some (nginx\<lparr>Annotations := nginxAnnotations(annotationOriginalReplicas \<mapsto> ''2''),
                 SpecReplicas := 1\<rparr>) \<and>
   fst (getDeploymentActionNeeded (pragueAt 20 0) (Annotations nginx) (SpecReplicas nginx))
     = Downscale \<and>
   fst (checkDeployment (pragueAt 9 0) (pragueAt 9 0) noUpdateError
          (nginx\<lparr>Annotations := nginxAnnotations(annotationOriginalReplicas \<mapsto> ''2''),
                  SpecReplicas := 1\<rparr>)) =
     Some (nginx\<lparr>Annotations := nginxAnnotations(annotationOriginalReplicas \<mapsto> ''2''),
                 SpecReplicas := 2\<rparr>) \<and>
   fst (getDeploymentActionNeeded (pragueAt 9 0)
          (nginxAnnotations(annotationOriginalReplicas \<mapsto> ''2'')) 1) = Upscale \<and>
   SpecReplicas (nginx\<lparr>Annotations := nginxAnnotations(annotationOriginalReplicas \<mapsto> ''2''),
                       SpecReplicas := 2\<rparr>) = SpecReplicas nginx"
proof -
  let ?down = "nginx\<lparr>Annotations := nginxAnnotations(annotationOriginalReplicas \<mapsto> ''2''),
                     SpecReplicas := 1\<rparr>"
  let ?up = "nginx\<lparr>Annotations := nginxAnnotations(annotationOriginalReplicas \<mapsto> ''2''),
                   SpecReplicas := 2\<rparr>"
  have fields: "Annotations nginx = nginxAnnotations" "SpecReplicas nginx = 2"
    "Annotations ?down = nginxAnnotations(annotationOriginalReplicas \<mapsto> ''2'')"
    "SpecReplicas ?down = 1"
    by (simp_all add: nginx_def)
  have "SpecReplicas ?up = SpecReplicas nginx"
    using downscale_then_upscale_restores [of "pragueAt 20 0" "pragueAt 20 0" noUpdateError nginx
        ?down "pragueAt 9 0" "pragueAt 9 0" noUpdateError ?up]
      nginx_rounds nginx_check_night(2) nginx_check_day(2)
    by (simp only: fields simp_thms)
  with nginx_rounds nginx_check_night(2) nginx_check_day(2) show ?thesis
    by (simp only: fields simp_thms)
qed

text \<open>
  C10. What a round of the driver hands to \<^verbatim>\<open>Update\<close> is the listed deployment with only
  the decided fields changed. After \<^verbatim>\<open>Downscale\<close> it differs in the replicas, now
  \<^verbatim>\<open>d8r/downTimeReplicas\<close>, and in the annotation \<^verbatim>\<open>d8r/originalReplicas\<close>, now the
  former replicas; every other annotation, the namespace and the name are the same.
  After \<^verbatim>\<open>Upscale\<close> it differs in the replicas only, and \<^verbatim>\<open>d8r/originalReplicas\<close> is
  still there. When the check is false or the decision is \<^verbatim>\<open>NoAction\<close>, nothing is
  handed to \<^verbatim>\<open>Update\<close>.
\<close>

theorem update_touches_only_decided_fields:
  "(fst (checkDeployment eCheck eAct update deployment) = Some written \<longrightarrow>
      fst (getDeploymentActionNeeded eAct (Annotations deployment) (SpecReplicas deployment))
        = Downscale \<and>
      (\<exists>n. ParseInt32 (getOrEmpty (Annotations deployment) annotationDownTimeReplicas) = Inr n \<and>
           written = deployment
             \<lparr>Annotations := (Annotations deployment)
                (annotationOriginalReplicas \<mapsto> fmt_d (sint (SpecReplicas deployment))),
              SpecReplicas := int32 n\<rparr>) \<and>
      (\<forall>k. k \<noteq> annotationOriginalReplicas \<longrightarrow>
           Annotations written k = Annotations deployment k) \<and>
      Namespace written = Namespace deployment \<and> Name written = Name deployment
    \<or>
      fst (getDeploymentActionNeeded eAct (Annotations deployment) (SpecReplicas deployment))
        = Upscale \<and>
      (\<exists>n. ParseInt32 (getOrEmpty (Annotations deployment) annotationOriginalReplicas) = Inr n \<and>
           written = deployment\<lparr>SpecReplicas := int32 n\<rparr>) \<and>
      Annotations written = Annotations deployment \<and>
      Namespace written = Namespace deployment \<and> Name written = Name deployment) \<and>
   (fst (getDeploymentActionNeeded eAct (Annotations deployment) (SpecReplicas deployment))
      = NoAction \<longrightarrow>
      fst (checkDeployment eCheck eAct update deployment) = None) \<and>
   (\<not> fst (isDeploymentActionNeeded eCheck (Annotations deployment) (SpecReplicas deployment)) \<longrightarrow>
      fst (checkDeployment eCheck eAct update deployment) = None)"
proof (intro conjI impI)
  assume "fst (checkDeployment eCheck eAct update deployment) = Some written"
  then consider
    n where "fst (getDeploymentActionNeeded eAct (Annotations deployment) (SpecReplicas deployment))
        = Downscale"
      "ParseInt32 (getOrEmpty (Annotations deployment) annotationDownTimeReplicas) = Inr n"
      "written = deployment
             \<lparr>Annotations := (Annotations deployment)
                (annotationOriginalReplicas \<mapsto> fmt_d (sint (SpecReplicas deployment))),
              SpecReplicas := int32 n\<rparr>"
  | n where "fst (getDeploymentActionNeeded eAct (Annotations deployment) (SpecReplicas deployment))
        = Upscale"
      "ParseInt32 (getOrEmpty (Annotations deployment) annotationOriginalReplicas) = Inr n"
      "written = deployment\<lparr>SpecReplicas := int32 n\<rparr>"
    by (auto simp: checkDeployment_written split: if_splits sum.splits)
  then show "fst (getDeploymentActionNeeded eAct (Annotations deployment) (SpecReplicas deployment))
        = Downscale \<and>
      (\<exists>n. ParseInt32 (getOrEmpty (Annotations deployment) annotationDownTimeReplicas) = Inr n \<and>
           written = deployment
             \<lparr>Annotations := (Annotations deployment)
                (annotationOriginalReplicas \<mapsto> fmt_d (sint (SpecReplicas deployment))),
              SpecReplicas := int32 n\<rparr>) \<and>
      (\<forall>k. k \<noteq> annotationOriginalReplicas \<longrightarrow>
           Annotations written k = Annotations deployment k) \<and>
      Namespace written = Namespace deployment \<and> Name written = Name deployment
    \<or>
      fst (getDeploymentActionNeeded eAct (Annotations deployment) (SpecReplicas deployment))
        = Upscale \<and>
      (\<exists>n. ParseInt32 (getOrEmpty (Annotations deployment) annotationOriginalReplicas) = Inr n \<and>
           written = deployment\<lparr>SpecReplicas := int32 n\<rparr>) \<and>
      Annotations written = Annotations deployment \<and>
      Namespace written = Namespace deployment \<and> Name written = Name deployment"
  proof cases
    case 1
    then show ?thesis by simp
  next
    case 2
    then show ?thesis by simp
  qed
next
  assume "fst (getDeploymentActionNeeded eAct (Annotations deployment) (SpecReplicas deployment))
      = NoAction"
  then show "fst (checkDeployment eCheck eAct update deployment) = None"
    by (simp add: checkDeployment_written Action_defs)
next
  assume "\<not> fst (isDeploymentActionNeeded eCheck (Annotations deployment) (SpecReplicas deployment))"
  then show "fst (checkDeployment eCheck eAct update deployment) = None"
    by (simp add: checkDeployment_written)
qed

theorem update_touches_only_decided_fields_witness:
  "fst (checkDeployment (pragueAt 20 0) (pragueAt 20 0) noUpdateError nginx) =
     Some (nginx\<lparr>Annotations := nginxAnnotations(annotationOriginalReplicas \<mapsto> ''2''),
                 SpecReplicas := 1\<rparr>) \<and>
   fst (getDeploymentActionNeeded (pragueAt 20 0) (Annotations nginx) (SpecReplicas nginx))
     = Downscale \<and>
   (nginxAnnotations(annotationOriginalReplicas \<mapsto> ''2'')) annotationStopTime =
     nginxAnnotations annotationStopTime \<and>
   fst (checkDeployment (pragueAt 9 0) (pragueAt 9 0) noUpdateError
          (nginx\<lparr>Annotations := nginxAnnotations(annotationOriginalReplicas \<mapsto> ''2''),
                  SpecReplicas := 1\<rparr>)) =
     Some (nginx\<lparr>Annotations := nginxAnnotations(annotationOriginalReplicas \<mapsto> ''2''),
                 SpecReplicas := 2\<rparr>) \<and>
   fst (isDeploymentActionNeeded (pragueAt 7 59) (Annotations nginx) (SpecReplicas nginx)) \<and>
   fst (getDeploymentActionNeeded (pragueAt 8 0) (Annotations nginx) (SpecReplicas nginx))
     = NoAction \<and>
   fst (checkDeployment (pragueAt 7 59) (pragueAt 8 0) noUpdateError nginx) = None \<and>
   \<not> fst (isDeploymentActionNeeded (pragueSaturdayAt 20 0) (Annotations nginx) (SpecReplicas nginx)) \<and>
   fst (checkDeployment (pragueSaturdayAt 20 0) (pragueAt 20 0) noUpdateError nginx) = None"
proof -
  let ?down = "nginx\<lparr>Annotations := nginxAnnotations(annotationOriginalReplicas \<mapsto> ''2''),
                     SpecReplicas := 1\<rparr>"
  have fields: "Annotations nginx = nginxAnnotations" "SpecReplicas nginx = 2"
    "Annotations ?down = nginxAnnotations(annotationOriginalReplicas \<mapsto> ''2'')"
    by (simp_all add: nginx_def)
  have saturday: "\<not> fst (isDeploymentActionNeeded (pragueSaturdayAt 20 0) (Annotations nginx)
      (SpecReplicas nginx))"
    by (simp add: fields isDeploymentActionNeeded_def nginx_gate_annotations now_winter(8))
  have up: "fst (getDeploymentActionNeeded (pragueAt 20 0) (Annotations nginx) (SpecReplicas nginx))
      \<noteq> Upscale"
    by (simp add: fields nginx_check_night(2) Action_defs)
  have start: "fst (getDeploymentActionNeeded (pragueAt 8 0) (Annotations nginx) (SpecReplicas nginx))
      = NoAction"
    by (simp add: fields nginx_check_before_start(2))
  have "\<forall>k. k \<noteq> annotationOriginalReplicas \<longrightarrow> Annotations ?down k = Annotations nginx k"
    using update_touches_only_decided_fields [of "pragueAt 20 0" "pragueAt 20 0" noUpdateError
        nginx ?down] nginx_rounds(1) up
    by blast
  then have "Annotations ?down annotationStopTime = Annotations nginx annotationStopTime"
    by simp
  moreover have "fst (checkDeployment (pragueSaturdayAt 20 0) (pragueAt 20 0) noUpdateError nginx)
      = None"
    using update_touches_only_decided_fields [of "pragueSaturdayAt 20 0" "pragueAt 20 0"
        noUpdateError nginx ?down] saturday
    by blast
  moreover have "fst (checkDeployment (pragueAt 7 59) (pragueAt 8 0) noUpdateError nginx) = None"
    using update_touches_only_decided_fields [of "pragueAt 7 59" "pragueAt 8 0"
        noUpdateError nginx ?down] start
    by blast
  ultimately show ?thesis
    using nginx_rounds nginx_check_night(2) nginx_check_before_start saturday
    by (simp only: fields simp_thms)
qed

end
